theory Spec2Isabelle
  imports Main
begin

section \<open>Ventashop: products, carts, line items and orders\<close>

text \<open>
  A shallow embedding of the model layer of \<^verbatim>\<open>ventashop/models.py\<close>.

  \<^item> Every model class is a record of the fields its methods read or write; fields no
    method touches (dates, image, description, category) are left out.
  \<^item> The database is a record of tables, each table the list of its rows, and of the key
    sequences of the tables whose rows the methods create.  A new row gets a key larger
    than every key the table has or ever had.
  \<^item> An order instance has no key until its first save (\<open>o_pk = None\<close>); the methods
    below create orders, and \<^verbatim>\<open>Order.save\<close> queries by \<^verbatim>\<open>self\<close> before the
    insert.  Products and carts are instances that have their key; a new line item or
    comment carries the key its row will get, since no method looks at it before the insert.
  \<^item> A \<^verbatim>\<open>DecimalField(max_digits=10, decimal_places=2)\<close> is an \<open>int\<close> of hundredths;
    a value of more than ten digits does not fit and \<^verbatim>\<open>Model.save\<close> raises
    \<^verbatim>\<open>decimal.InvalidOperation\<close>.  An \<^verbatim>\<open>IntegerField\<close> is an \<open>int\<close>.
  \<^item> Methods mutate \<^verbatim>\<open>self\<close> and the database.  A method of the embedding takes the
    instance and the database and returns the outcome and the database: the outcome is
    the instance (or the value returned) or the exception raised, and the database holds
    every row written before the exception.
  \<^item> The exceptions are those the calls of the methods raise on the data at hand: a
    missing related row, more than one row for \<^verbatim>\<open>get\<close>, a decimal that does not fit,
    a \<^verbatim>\<open>unique\<close> column value taken by another row, an unsaved related instance.
    The width of text and integer columns and the existence of the rows that foreign
    keys point to are not checked by the embedding.
  \<^item> \<^verbatim>\<open>slugify\<close> (a library function) and \<^verbatim>\<open>get_VAT_prices\<close> (from
    \<^verbatim>\<open>utils.py\<close>) are parameters of the methods that call them.
\<close>

subsection \<open>Data model\<close>

type_synonym money = int

text \<open>Ten digits, two of them decimal places: less than 100000000.00 in absolute value.\<close>

definition fits :: "money \<Rightarrow> bool" where
  "fits v \<longleftrightarrow> - 10000000000 < v \<and> v < 10000000000"

datatype error =
    DoesNotExist
  | MultipleObjectsReturned
  | InvalidOperation
  | IntegrityError
  | ValueError
  | RefNumbersExhausted

record product =
  p_pk :: nat
  p_name :: string
  p_slug :: string
  p_price :: money

record cart =
  c_pk :: nat
  c_total_price :: money
  c_customer_account :: "nat option"

record shop_order =
  o_pk :: "nat option"
  o_status :: string
  o_total_price :: money
  o_vat_amount :: money
  o_incl_vat_price :: money
  o_ref_number :: string
  o_slug :: string
  o_customer_account :: "nat option"

record comment =
  cm_pk :: nat
  cm_content :: string
  cm_order :: nat

record line_item =
  li_pk :: nat
  li_product :: nat
  li_quantity :: int
  li_price :: money
  li_cart :: "nat option"
  li_order :: "nat option"

record db =
  products :: "product list"
  carts :: "cart list"
  orders :: "shop_order list"
  comments :: "comment list"
  line_items :: "line_item list"
  order_seq :: nat
  comment_seq :: nat
  line_item_seq :: nat

text \<open>What a method gives back: the outcome and the database.\<close>

type_synonym 'a result = "(error + 'a) \<times> db"

subsection \<open>The object-relational layer\<close>

text \<open>
  Writing a row: update the row that has the instance's key, insert otherwise.
\<close>

definition Model_save :: "('a \<Rightarrow> 'k) \<Rightarrow> 'a \<Rightarrow> 'a list \<Rightarrow> 'a list" where
  "Model_save pk self rows =
     (if \<exists>r \<in> set rows. pk r = pk self
      then map (\<lambda>r. if pk r = pk self then self else r) rows
      else rows @ [self])"

text \<open>\<^verbatim>\<open>Model.delete\<close>: remove the row with the given key.\<close>

definition Model_delete :: "('a \<Rightarrow> nat) \<Rightarrow> nat \<Rightarrow> 'a list \<Rightarrow> 'a list" where
  "Model_delete pk k rows = filter (\<lambda>r. pk r \<noteq> k) rows"

text \<open>
  The key of a new row, from the table's sequence (the largest key ever given) and the
  keys in the table.
\<close>

definition next_pk :: "nat \<Rightarrow> nat list \<Rightarrow> nat" where
  "next_pk seq pks = Suc (fold max pks seq)"

text \<open>\<^verbatim>\<open>LineItem.objects.filter(cart=c)\<close> and \<^verbatim>\<open>LineItem.objects.filter(order=o)\<close>.\<close>

definition cart_line_items :: "nat \<Rightarrow> db \<Rightarrow> line_item list" where
  "cart_line_items c db = filter (\<lambda>li. li_cart li = Some c) (line_items db)"

definition order_line_items :: "nat \<Rightarrow> db \<Rightarrow> line_item list" where
  "order_line_items k db = filter (\<lambda>li. li_order li = Some k) (line_items db)"

subsection \<open>Product\<close>

text \<open>
  \<^verbatim>\<open>
  name = models.CharField(max_length=200, unique=True)
  slug = models.SlugField(null=False, unique=True)
  price = models.DecimalField(max_digits=10, decimal_places=2)

  def save(self, *args, **kwargs):
      if not self.slug:
          self.slug = slugify(self.name)
      return super().save(*args, **kwargs)
  \<close>
\<close>

definition Product_save :: "(string \<Rightarrow> string) \<Rightarrow> product \<Rightarrow> db \<Rightarrow> product result" where
  "Product_save slugify self db =
     (let self1 = (if p_slug self = [] then self\<lparr>p_slug := slugify (p_name self)\<rparr> else self)
      in if \<not> fits (p_price self1) then (Inl InvalidOperation, db)
         else if \<exists>r \<in> set (products db).
                   p_pk r \<noteq> p_pk self1 \<and> (p_name r = p_name self1 \<or> p_slug r = p_slug self1)
         then (Inl IntegrityError, db)
         else (Inr self1, db\<lparr>products := Model_save p_pk self1 (products db)\<rparr>))"

subsection \<open>LineItem\<close>

text \<open>
  \<^verbatim>\<open>self.product\<close>: an instance built from a product object holds that object (the
  first argument is \<open>Some\<close> of it); an instance loaded from its row looks the product up
  by key.
\<close>

definition LineItem_product :: "product option \<Rightarrow> line_item \<Rightarrow> db \<Rightarrow> error + product" where
  "LineItem_product cached self db =
     (case cached of
        Some p \<Rightarrow> Inr p
      | None \<Rightarrow>
          (case find (\<lambda>p. p_pk p = li_product self) (products db) of
             None \<Rightarrow> Inl DoesNotExist
           | Some p \<Rightarrow> Inr p))"

text \<open>
  \<^verbatim>\<open>
  quantity = models.IntegerField(default=1000)
  price = models.DecimalField(max_digits=10, decimal_places=2)

  def save(self, *args, **kwargs):
      if self.quantity < 1000:
          self.quantity = 1000
      self.price = self.product.price * self.quantity
      return super().save(*args, **kwargs)
  \<close>
\<close>

definition LineItem_save :: "product option \<Rightarrow> line_item \<Rightarrow> db \<Rightarrow> line_item result" where
  "LineItem_save cached self db =
     (let self1 = (if li_quantity self < 1000 then self\<lparr>li_quantity := 1000\<rparr> else self)
      in case LineItem_product cached self1 db of
           Inl e \<Rightarrow> (Inl e, db)
         | Inr p \<Rightarrow>
             (let self2 = self1\<lparr>li_price := p_price p * li_quantity self1\<rparr>
              in if \<not> fits (li_price self2) then (Inl InvalidOperation, db)
                 else (Inr self2,
                       db\<lparr>line_items := Model_save li_pk self2 (line_items db),
                          line_item_seq := max (line_item_seq db) (li_pk self2)\<rparr>)))"

text \<open>What \<open>LineItem_save\<close> leaves in the instance, given the product it resolved.\<close>

definition LineItem_saved :: "product \<Rightarrow> line_item \<Rightarrow> line_item" where
  "LineItem_saved p self =
     self\<lparr>li_quantity := max 1000 (li_quantity self),
          li_price := p_price p * max 1000 (li_quantity self)\<rparr>"

definition LineItem_delete :: "line_item \<Rightarrow> db \<Rightarrow> db" where
  "LineItem_delete self db = db\<lparr>line_items := Model_delete li_pk (li_pk self) (line_items db)\<rparr>"

text \<open>
  \<^verbatim>\<open>LineItem.objects.filter(product=product, cart=self)\<close> is \<open>LineItem_filter\<close>.
  \<^verbatim>\<open>LineItem.objects.get_or_create(product=product, cart=self)\<close>: the one row with
  this product and cart; with no such row a new instance (quantity 1000 by the field's
  default, no order) is saved through \<open>LineItem_save\<close>; more than one row raises.
  The value is the instance, its cached product and the \<open>created\<close> flag.
  \<^verbatim>\<open>update_or_create\<close> without defaults finds or creates the same row and writes no
  column of a row it finds.
\<close>

definition LineItem_filter :: "product \<Rightarrow> cart \<Rightarrow> db \<Rightarrow> line_item list" where
  "LineItem_filter product c db =
     filter (\<lambda>li. li_product li = p_pk product \<and> li_cart li = Some (c_pk c)) (line_items db)"

text \<open>
  \<^verbatim>\<open>LineItem(product=product, cart=self)\<close>, with the key its row will get.  The price
  has no default; \<open>LineItem_save\<close> sets it before the row is written.
\<close>

definition LineItem_new :: "product \<Rightarrow> cart \<Rightarrow> db \<Rightarrow> line_item" where
  "LineItem_new product c db =
     \<lparr>li_pk = next_pk (line_item_seq db) (map li_pk (line_items db)), li_product = p_pk product,
      li_quantity = 1000, li_price = 0, li_cart = Some (c_pk c), li_order = None\<rparr>"

definition LineItem_get_or_create ::
  "product \<Rightarrow> cart \<Rightarrow> db \<Rightarrow> (line_item \<times> product option \<times> bool) result" where
  "LineItem_get_or_create product c db =
     (case LineItem_filter product c db of
        [] \<Rightarrow>
          (case LineItem_save (Some product) (LineItem_new product c db) db of
             (Inl e, db1) \<Rightarrow> (Inl e, db1)
           | (Inr li, db1) \<Rightarrow> (Inr (li, Some product, True), db1))
      | [li] \<Rightarrow> (Inr (li, None, False), db)
      | _ \<Rightarrow> (Inl MultipleObjectsReturned, db))"

subsection \<open>Cart\<close>

text \<open>
  \<^verbatim>\<open>
  total_price = models.DecimalField(max_digits=10, decimal_places=2, default=0)
  customer_account = models.OneToOneField(CustomerAccount, on_delete=models.CASCADE, null=True)

  def calculate_total_price(self):
      self.total_price = 0
      for li in LineItem.objects.filter(cart=self):
          self.total_price += li.price

  def save(self, *args, **kwargs):
      self.calculate_total_price()
      return super().save(*args, **kwargs)
  \<close>
  A one-to-one field is unique: no two carts have the same customer account.
\<close>

definition Cart_calculate_total_price :: "cart \<Rightarrow> db \<Rightarrow> cart" where
  "Cart_calculate_total_price self db =
     self\<lparr>c_total_price :=
       fold (\<lambda>li total. total + li_price li) (cart_line_items (c_pk self) db) 0\<rparr>"

definition Cart_save :: "cart \<Rightarrow> db \<Rightarrow> cart result" where
  "Cart_save self db =
     (let self1 = Cart_calculate_total_price self db
      in if \<not> fits (c_total_price self1) then (Inl InvalidOperation, db)
         else if \<exists>r \<in> set (carts db).
                   c_pk r \<noteq> c_pk self1 \<and> c_customer_account self1 \<noteq> None \<and>
                   c_customer_account r = c_customer_account self1
         then (Inl IntegrityError, db)
         else (Inr self1, db\<lparr>carts := Model_save c_pk self1 (carts db)\<rparr>))"

text \<open>
  \<^verbatim>\<open>
  def add_line_item(self, product, quantity):
      li, created = LineItem.objects.get_or_create(product=product, cart=self)
      if not created:
          li.quantity += quantity
      else:
          if quantity < 1000:
              li.delete()
              return
          li.quantity = quantity
      li.save()
      self.save()
  \<close>
\<close>

definition add_line_item :: "cart \<Rightarrow> product \<Rightarrow> int \<Rightarrow> db \<Rightarrow> cart result" where
  "add_line_item self product quantity db =
     (case LineItem_get_or_create product self db of
        (Inl e, db1) \<Rightarrow> (Inl e, db1)
      | (Inr (li, cached, created), db1) \<Rightarrow>
          if \<not> created then
            (case LineItem_save cached (li\<lparr>li_quantity := li_quantity li + quantity\<rparr>) db1 of
               (Inl e, db2) \<Rightarrow> (Inl e, db2)
             | (Inr li1, db2) \<Rightarrow> Cart_save self db2)
          else if quantity < 1000 then (Inr self, LineItem_delete li db1)
          else
            (case LineItem_save cached (li\<lparr>li_quantity := quantity\<rparr>) db1 of
               (Inl e, db2) \<Rightarrow> (Inl e, db2)
             | (Inr li1, db2) \<Rightarrow> Cart_save self db2))"

text \<open>
  \<^verbatim>\<open>
  def update_line_item(self, product, quantity):
      if quantity < 1000:
          return
      li, created = LineItem.objects.update_or_create(product=product, cart=self)
      li.quantity = quantity
      li.save()
      self.save()
  \<close>
\<close>

definition update_line_item :: "cart \<Rightarrow> product \<Rightarrow> int \<Rightarrow> db \<Rightarrow> cart result" where
  "update_line_item self product quantity db =
     (if quantity < 1000 then (Inr self, db)
      else
        (case LineItem_get_or_create product self db of
           (Inl e, db1) \<Rightarrow> (Inl e, db1)
         | (Inr (li, cached, created), db1) \<Rightarrow>
             (case LineItem_save cached (li\<lparr>li_quantity := quantity\<rparr>) db1 of
                (Inl e, db2) \<Rightarrow> (Inl e, db2)
              | (Inr li1, db2) \<Rightarrow> Cart_save self db2)))"

text \<open>
  \<^verbatim>\<open>
  def remove_line_item(self, line_item):
      line_item.delete()
      self.save()
  \<close>
\<close>

definition remove_line_item :: "cart \<Rightarrow> line_item \<Rightarrow> db \<Rightarrow> cart result" where
  "remove_line_item self line_item db = Cart_save self (LineItem_delete line_item db)"

text \<open>
  \<^verbatim>\<open>
  def empty_cart(self):
      for li in self.lineitem_set.all():
          li.delete()
      self.save()
  \<close>
\<close>

definition empty_cart :: "cart \<Rightarrow> db \<Rightarrow> cart result" where
  "empty_cart self db = Cart_save self (fold LineItem_delete (cart_line_items (c_pk self) db) db)"

subsection \<open>Order and Comment\<close>

text \<open>
  Modelled from the spec: \<^verbatim>\<open>unique_ref_number_generator\<close> of \<^verbatim>\<open>utils.py\<close>, which
  is not among the sources.  The spec calls it a uniqueness-checked string utility: it
  draws candidate reference numbers until one is the reference number of no order.  The
  draws are the list \<open>cands\<close>; the result is that candidate and the draws not yet used,
  or \<open>None\<close> when every draw is taken.
\<close>

fun unique_ref_number_generator ::
  "string list \<Rightarrow> shop_order \<Rightarrow> db \<Rightarrow> (string \<times> string list) option" where
  "unique_ref_number_generator [] instance db = None"
| "unique_ref_number_generator (c # cs) instance db =
     (if \<exists>ord \<in> set (orders db). o_ref_number ord = c
      then unique_ref_number_generator cs instance db
      else Some (c, cs))"

text \<open>
  \<^verbatim>\<open>
  def calculate_total_price(self):
      self.total_price = 0
      for li in LineItem.objects.filter(order=self):
          self.total_price += li.price
  \<close>
  The filter compares the line item's order key with the key of \<^verbatim>\<open>self\<close>.  On an
  instance that has no key yet the query is \<^verbatim>\<open>order IS NULL\<close>: it selects the line
  items attached to no order.
\<close>

definition Order_calculate_total_price :: "shop_order \<Rightarrow> db \<Rightarrow> shop_order" where
  "Order_calculate_total_price self db =
     self\<lparr>o_total_price :=
       fold (\<lambda>li total. total + li_price li)
         (filter (\<lambda>li. li_order li = o_pk self) (line_items db)) 0\<rparr>"

text \<open>
  \<^verbatim>\<open>
  def add_comment(self, content="La commande vient d'etre creee."):
      comment = Comment.objects.create(content=content, order = self)
      comment.save()
  \<close>
  (the source's default has the accented letters, as below).  A comment of an order that
  has no key cannot be created.
\<close>

definition default_comment_content :: string where
  "default_comment_content =
     ''La commande vient d'' @ [CHR 0x27, CHR 0xEA] @ ''tre cr'' @ [CHR 0xE9, CHR 0xE9] @ ''e.''"

definition Order_add_comment :: "shop_order \<Rightarrow> string \<Rightarrow> db \<Rightarrow> unit result" where
  "Order_add_comment self content db =
     (case o_pk self of
        None \<Rightarrow> (Inl ValueError, db)
      | Some k \<Rightarrow>
          (let comment = \<lparr>cm_pk = next_pk (comment_seq db) (map cm_pk (comments db)),
                          cm_content = content, cm_order = k\<rparr>;
               db1 = db\<lparr>comments := Model_save cm_pk comment (comments db),
                        comment_seq := max (comment_seq db) (cm_pk comment)\<rparr>
           in (Inr (), db1\<lparr>comments := Model_save cm_pk comment (comments db1)\<rparr>)))"

text \<open>
  \<^verbatim>\<open>
  total_price = models.DecimalField(max_digits=10, decimal_places=2, default=0)
  vat_amount = models.DecimalField(max_digits=10, decimal_places=2, default=0)
  incl_vat_price = models.DecimalField(max_digits=10, decimal_places=2, default=0)
  ref_number = models.CharField(max_length=20, blank= True)
  slug = models.SlugField(null=False, unique=True)
  \<close>
  \<^verbatim>\<open>Model.save\<close> of an order: the decimals must fit and no other row may have the slug;
  an instance without key is inserted under the next key of the sequence.
\<close>

definition Order_Model_save :: "shop_order \<Rightarrow> db \<Rightarrow> shop_order result" where
  "Order_Model_save self db =
     (if \<not> (fits (o_total_price self) \<and> fits (o_vat_amount self) \<and> fits (o_incl_vat_price self))
      then (Inl InvalidOperation, db)
      else if \<exists>r \<in> set (orders db). o_pk r \<noteq> o_pk self \<and> o_slug r = o_slug self
      then (Inl IntegrityError, db)
      else
        (case o_pk self of
           None \<Rightarrow>
             (let k = next_pk (order_seq db) (List.map_filter o_pk (orders db));
                  self1 = self\<lparr>o_pk := Some k\<rparr>
              in (Inr self1, db\<lparr>orders := orders db @ [self1], order_seq := k\<rparr>))
         | Some k \<Rightarrow>
             (Inr self, db\<lparr>orders := Model_save o_pk self (orders db),
                           order_seq := max (order_seq db) k\<rparr>)))"

text \<open>
  \<^verbatim>\<open>
  def save(self, *args, **kwargs):
      if not self.ref_number:
          self.ref_number= unique_ref_number_generator(self)
      if not self.slug:
          self.slug = slugify(self.ref_number)
      self.calculate_total_price()
      self.vat_amount, self.incl_vat_price = get_VAT_prices(self.total_price)
      return super().save(*args, **kwargs)
  \<close>
  The value is the saved instance and the draws the generator has not used.
\<close>

definition Order_gen_ref_number ::
  "string list \<Rightarrow> shop_order \<Rightarrow> db \<Rightarrow> error + (shop_order \<times> string list)" where
  "Order_gen_ref_number cands self db =
     (if o_ref_number self = [] then
        (case unique_ref_number_generator cands self db of
           None \<Rightarrow> Inl RefNumbersExhausted
         | Some (r, rest) \<Rightarrow> Inr (self\<lparr>o_ref_number := r\<rparr>, rest))
      else Inr (self, cands))"

text \<open>The instance as \<open>Order_save\<close> hands it to \<^verbatim>\<open>Model.save\<close>, its reference number set.\<close>

definition Order_filled ::
  "(string \<Rightarrow> string) \<Rightarrow> (money \<Rightarrow> money \<times> money) \<Rightarrow> shop_order \<Rightarrow> db \<Rightarrow> shop_order" where
  "Order_filled slugify get_VAT_prices self1 db =
     (let self2 = (if o_slug self1 = [] then self1\<lparr>o_slug := slugify (o_ref_number self1)\<rparr>
                   else self1);
          self3 = Order_calculate_total_price self2 db
      in case get_VAT_prices (o_total_price self3) of
           (vat, incl) \<Rightarrow> self3\<lparr>o_vat_amount := vat, o_incl_vat_price := incl\<rparr>)"

definition Order_save ::
  "(string \<Rightarrow> string) \<Rightarrow> (money \<Rightarrow> money \<times> money) \<Rightarrow> string list \<Rightarrow> shop_order \<Rightarrow> db
     \<Rightarrow> (shop_order \<times> string list) result" where
  "Order_save slugify get_VAT_prices cands self db =
     (case Order_gen_ref_number cands self db of
        Inl e \<Rightarrow> (Inl e, db)
      | Inr (self1, rest) \<Rightarrow>
          (case Order_Model_save (Order_filled slugify get_VAT_prices self1 db) db of
             (Inl e, db1) \<Rightarrow> (Inl e, db1)
           | (Inr self4, db1) \<Rightarrow> (Inr (self4, rest), db1)))"

text \<open>\<^verbatim>\<open>Order.objects.create()\<close>: a new instance with the fields' defaults, saved.\<close>

definition Order_new :: shop_order where
  "Order_new = \<lparr>o_pk = None, o_status = ''NT'', o_total_price = 0, o_vat_amount = 0,
                o_incl_vat_price = 0, o_ref_number = [], o_slug = [], o_customer_account = None\<rparr>"

definition Order_objects_create ::
  "(string \<Rightarrow> string) \<Rightarrow> (money \<Rightarrow> money \<times> money) \<Rightarrow> string list \<Rightarrow> db
     \<Rightarrow> (shop_order \<times> string list) result" where
  "Order_objects_create slugify get_VAT_prices cands db =
     Order_save slugify get_VAT_prices cands Order_new db"

text \<open>
  \<^verbatim>\<open>
  def make_order(self):
      if self.total_price == 0:
          return
      order = Order.objects.create()
      order.add_comment()
      order.customer_account = self.customer_account
      for li in self.lineitem_set.all():
          li.order = order
          li.cart = None
          li.save()
      order.save()
      self.save()
      return order
  \<close>
  The loop runs over the rows the query returned when the loop began.
\<close>

fun make_order_loop :: "shop_order \<Rightarrow> line_item list \<Rightarrow> db \<Rightarrow> unit result" where
  "make_order_loop order [] db = (Inr (), db)"
| "make_order_loop order (li # lis) db =
     (case LineItem_save None (li\<lparr>li_order := o_pk order, li_cart := None\<rparr>) db of
        (Inl e, db1) \<Rightarrow> (Inl e, db1)
      | (Inr li1, db1) \<Rightarrow> make_order_loop order lis db1)"

definition make_order ::
  "(string \<Rightarrow> string) \<Rightarrow> (money \<Rightarrow> money \<times> money) \<Rightarrow> string list \<Rightarrow> cart \<Rightarrow> db
     \<Rightarrow> (shop_order option \<times> cart) result" where
  "make_order slugify get_VAT_prices cands self db =
     (if c_total_price self = 0 then (Inr (None, self), db)
      else
        (case Order_objects_create slugify get_VAT_prices cands db of
           (Inl e, db1) \<Rightarrow> (Inl e, db1)
         | (Inr (order, rest), db1) \<Rightarrow>
             (case Order_add_comment order default_comment_content db1 of
                (Inl e, db2) \<Rightarrow> (Inl e, db2)
              | (Inr u, db2) \<Rightarrow>
                  (let order1 = order\<lparr>o_customer_account := c_customer_account self\<rparr>
                   in case make_order_loop order1 (cart_line_items (c_pk self) db2) db2 of
                        (Inl e, db3) \<Rightarrow> (Inl e, db3)
                      | (Inr u1, db3) \<Rightarrow>
                          (case Order_save slugify get_VAT_prices rest order1 db3 of
                             (Inl e, db4) \<Rightarrow> (Inl e, db4)
                           | (Inr (order2, rest2), db4) \<Rightarrow>
                               (case Cart_save self db4 of
                                  (Inl e, db5) \<Rightarrow> (Inl e, db5)
                                | (Inr self1, db5) \<Rightarrow> (Inr (Some order2, self1), db5)))))))"

subsection \<open>Operations and runs\<close>

text \<open>
  The operations of the program on the database, each with the instance it is called on
  and its arguments (for those that generate a reference number, the draws): the five
  cart methods, and the three \<^verbatim>\<open>save\<close> methods called on an instance directly.  A
  line item saved directly is an instance loaded from its row.  A step gives the
  exception raised, if any, and the database; a run applies a list of operations in
  order and stops at the first exception, with the database as that operation left it.
\<close>

datatype op =
    AddLineItem cart product int
  | UpdateLineItem cart product int
  | RemoveLineItem cart line_item
  | EmptyCart cart
  | MakeOrder "string list" cart
  | ProductSave product
  | OrderSave "string list" shop_order
  | LineItemSave line_item

definition raised :: "'a result \<Rightarrow> error option \<times> db" where
  "raised r = (case r of (Inl e, db) \<Rightarrow> (Some e, db) | (Inr v, db) \<Rightarrow> (None, db))"

fun step ::
  "(string \<Rightarrow> string) \<Rightarrow> (money \<Rightarrow> money \<times> money) \<Rightarrow> op \<Rightarrow> db \<Rightarrow> error option \<times> db" where
  "step slugify vat (AddLineItem c p q) db = raised (add_line_item c p q db)"
| "step slugify vat (UpdateLineItem c p q) db = raised (update_line_item c p q db)"
| "step slugify vat (RemoveLineItem c li) db = raised (remove_line_item c li db)"
| "step slugify vat (EmptyCart c) db = raised (empty_cart c db)"
| "step slugify vat (MakeOrder cands c) db = raised (make_order slugify vat cands c db)"
| "step slugify vat (ProductSave p) db = raised (Product_save slugify p db)"
| "step slugify vat (OrderSave cands ord) db = raised (Order_save slugify vat cands ord db)"
| "step slugify vat (LineItemSave li) db = raised (LineItem_save None li db)"

fun run ::
  "(string \<Rightarrow> string) \<Rightarrow> (money \<Rightarrow> money \<times> money) \<Rightarrow> op list \<Rightarrow> db \<Rightarrow> error option \<times> db" where
  "run slugify vat [] db = (None, db)"
| "run slugify vat (x # xs) db =
     (case step slugify vat x db of
        (Some e, db1) \<Rightarrow> (Some e, db1)
      | (None, db1) \<Rightarrow> run slugify vat xs db1)"

text \<open>A line item is attached to exactly one of a cart and an order.\<close>

definition attached_to_one :: "line_item \<Rightarrow> bool" where
  "attached_to_one li = ((li_cart li = None) \<noteq> (li_order li = None))"

text \<open>
  The operations named by the program's cart interface: every operation but a direct
  save of a line-item instance.
\<close>

fun cart_operation :: "op \<Rightarrow> bool" where
  "cart_operation (LineItemSave li) = False"
| "cart_operation x = True"

subsection \<open>Sample data\<close>

text \<open>
  Concrete instances of the parameters and a small database, on which the theorems below
  are instantiated: a slugify that lower-cases nothing and turns spaces into hyphens, a
  VAT of one fifth, one product at 2.50, and one customer's empty cart.
\<close>

definition sample_slugify :: "string \<Rightarrow> string" where
  "sample_slugify s = map (\<lambda>c. if c = CHR '' '' then CHR ''-'' else c) s"

definition sample_VAT :: "money \<Rightarrow> money \<times> money" where
  "sample_VAT amount = (amount div 5, amount + amount div 5)"

definition sample_product :: product where
  "sample_product = \<lparr>p_pk = 1, p_name = ''blue pen'', p_slug = ''blue-pen'', p_price = 250\<rparr>"

definition sample_cart :: cart where
  "sample_cart = \<lparr>c_pk = 1, c_total_price = 0, c_customer_account = Some 7\<rparr>"

definition sample_db :: db where
  "sample_db = \<lparr>products = [sample_product], carts = [sample_cart], orders = [],
                 comments = [], line_items = [], order_seq = 0, comment_seq = 0,
                 line_item_seq = 0\<rparr>"

text \<open>The same database once the cart holds 1000 of the product.\<close>

definition sample_line_item :: line_item where
  "sample_line_item = \<lparr>li_pk = 1, li_product = 1, li_quantity = 1000, li_price = 250000,
                        li_cart = Some 1, li_order = None\<rparr>"

definition sample_cart_filled :: cart where
  "sample_cart_filled = \<lparr>c_pk = 1, c_total_price = 250000, c_customer_account = Some 7\<rparr>"

definition sample_db_filled :: db where
  "sample_db_filled = \<lparr>products = [sample_product], carts = [sample_cart_filled], orders = [],
                        comments = [], line_items = [sample_line_item], order_seq = 0,
                        comment_seq = 0, line_item_seq = 1\<rparr>"

text \<open>
  The filled database after the cart has been ordered with the one draw \<open>R1\<close>: the
  order, its comment, and the line item moved from the cart to the order.
\<close>

definition sample_order_made :: shop_order where
  "sample_order_made = \<lparr>o_pk = Some 1, o_status = ''NT'', o_total_price = 250000,
     o_vat_amount = 50000, o_incl_vat_price = 300000, o_ref_number = ''R1'', o_slug = ''R1'',
     o_customer_account = Some 7\<rparr>"

definition sample_db_ordered :: db where
  "sample_db_ordered = \<lparr>products = [sample_product], carts = [sample_cart],
     orders = [sample_order_made],
     comments = [\<lparr>cm_pk = 1, cm_content = default_comment_content, cm_order = 1\<rparr>],
     line_items = [sample_line_item\<lparr>li_cart := None, li_order := Some 1\<rparr>],
     order_seq = 1, comment_seq = 1, line_item_seq = 1\<rparr>"

text \<open>
  A line item as the loop of \<open>make_order\<close> leaves it: attached to order \<open>k\<close> instead of its
  cart and saved, with the product its row points to (the save raises when there is no
  such product, and the line item stays as it is).
\<close>

definition LineItem_moved :: "db \<Rightarrow> nat \<Rightarrow> line_item \<Rightarrow> line_item" where
  "LineItem_moved db k li =
     (case find (\<lambda>p. p_pk p = li_product li) (products db) of
        None \<Rightarrow> li
      | Some p \<Rightarrow> LineItem_saved p (li\<lparr>li_order := Some k, li_cart := None\<rparr>))"

text \<open>
  The state of an order in the database, for the order with key \<open>k\<close> and a list \<open>S\<close> of line
  items: the line items of the order are \<open>S\<close>, no other row has the key of one of them,
  the order has a row, and its persisted total is the sum of the prices in \<open>S\<close>.
\<close>

definition snapshot :: "nat \<Rightarrow> line_item list \<Rightarrow> db \<Rightarrow> bool" where
  "snapshot k S db \<longleftrightarrow>
     order_line_items k db = S \<and>
     (\<forall>r \<in> set (line_items db). li_pk r \<in> li_pk ` set S \<longrightarrow> li_order r = Some k) \<and>
     (\<exists>ord \<in> set (orders db). o_pk ord = Some k) \<and>
     (\<forall>ord \<in> set (orders db). o_pk ord = Some k \<longrightarrow>
        o_total_price ord = sum_list (map li_price S))"

text \<open>
  An operation spares the order with key \<open>k\<close>, whose line items have the keys \<open>pks\<close>, when
  it is not handed one of the order's line items: \<^verbatim>\<open>remove_line_item\<close> is not called with
  one, and a line item saved directly is none of them and is not attached to the order.
\<close>

fun spares :: "nat \<Rightarrow> nat list \<Rightarrow> op \<Rightarrow> bool" where
  "spares k pks (RemoveLineItem c li) = (li_pk li \<notin> set pks)"
| "spares k pks (LineItemSave li) = (li_pk li \<notin> set pks \<and> li_order li \<noteq> Some k)"
| "spares k pks x = True"

section \<open>Properties\<close>

subsection \<open>Tables\<close>

lemma fold_max_start: "b \<le> fold max pks (b::nat)"
proof (induction pks arbitrary: b)
  case Nil
  show ?case by simp
next
  case (Cons p ps)
  have "b \<le> max p b" by simp
  also have "\<dots> \<le> fold max ps (max p b)" by (rule Cons.IH)
  finally show ?case by simp
qed

lemma fold_max_ge: "x \<in> set pks \<Longrightarrow> x \<le> fold max pks (a::nat)"
proof (induction pks arbitrary: a)
  case Nil
  then show ?case by simp
next
  case (Cons p ps)
  show ?case
  proof (cases "x = p")
    case True
    have "p \<le> max p a" by simp
    also have "\<dots> \<le> fold max ps (max p a)" by (rule fold_max_start)
    finally show ?thesis using True by simp
  next
    case False
    with Cons show ?thesis by simp
  qed
qed

lemma next_pk_notin: "next_pk seq pks \<notin> set pks"
proof
  assume "next_pk seq pks \<in> set pks"
  then have "next_pk seq pks \<le> fold max pks seq" by (rule fold_max_ge)
  then show False by (simp add: next_pk_def)
qed

lemma next_pk_gt: "seq < next_pk seq pks"
  using fold_max_start [of seq pks] by (simp add: next_pk_def)

lemma set_Model_save: "set (Model_save pk x rows) \<subseteq> insert x (set rows)"
  by (auto simp: Model_save_def)

lemma Model_save_mem: "x \<in> set (Model_save pk x rows)"
  by (auto simp: Model_save_def)

lemma find_append_rows:
  "find P (xs @ ys) = (case find P xs of None \<Rightarrow> find P ys | Some x \<Rightarrow> Some x)"
  by (induction xs) auto

lemma find_Model_save: "find (\<lambda>r. pk r = pk x) (Model_save pk x rows) = Some x"
proof (cases "\<exists>r \<in> set rows. pk r = pk x")
  case True
  have "find (\<lambda>r. pk r = pk x) (map (\<lambda>r. if pk r = pk x then x else r) rows) = Some x"
    using True by (induction rows) auto
  with True show ?thesis by (simp add: Model_save_def)
next
  case False
  then have "find (\<lambda>r. pk r = pk x) rows = None" by (simp add: find_None_iff)
  with False show ?thesis by (simp add: Model_save_def find_append_rows)
qed

lemma filter_Model_save_other:
  assumes "\<not> P x" and "\<forall>r \<in> set rows. pk r = pk x \<longrightarrow> \<not> P r"
  shows "filter P (Model_save pk x rows) = filter P rows"
proof (cases "\<exists>r \<in> set rows. pk r = pk x")
  case True
  have "filter P (map (\<lambda>r. if pk r = pk x then x else r) rows) = filter P rows"
    using assms by (induction rows) auto
  with True show ?thesis by (simp add: Model_save_def)
next
  case False
  with assms show ?thesis by (simp add: Model_save_def)
qed

lemma map_pk_Model_save:
  "map pk (Model_save pk x rows) =
     (if pk x \<in> set (map pk rows) then map pk rows else map pk rows @ [pk x])"
proof -
  have "map pk (map (\<lambda>r. if pk r = pk x then x else r) rows) = map pk rows"
    by (induction rows) auto
  moreover have "(\<exists>r \<in> set rows. pk r = pk x) = (pk x \<in> set (map pk rows))"
    by (auto simp: image_iff) (metis)
  ultimately show ?thesis by (simp add: Model_save_def)
qed

lemma distinct_Model_save:
  "distinct (map pk rows) \<Longrightarrow> distinct (map pk (Model_save pk x rows))"
  by (simp add: map_pk_Model_save)

lemma distinct_Model_delete:
  "distinct (map pk rows) \<Longrightarrow> distinct (map pk (Model_delete pk k rows))"
  by (simp add: Model_delete_def distinct_map_filter)

lemma filter_Model_delete_other:
  "\<forall>r \<in> set rows. pk r = k \<longrightarrow> \<not> P r \<Longrightarrow> filter P (Model_delete pk k rows) = filter P rows"
  unfolding Model_delete_def by (induction rows) auto

lemma set_Model_delete: "set (Model_delete pk k rows) \<subseteq> set rows"
  by (auto simp: Model_delete_def)

lemma fold_price_sum:
  "fold (\<lambda>li acc. acc + li_price li) lis a = a + sum_list (map li_price lis)"
  by (induction lis arbitrary: a) auto

lemma Model_delete_fresh:
  "k \<notin> set (map pk rows) \<Longrightarrow> Model_delete pk k (rows @ [x]) = (if pk x = k then rows else rows @ [x])"
  by (auto simp: Model_delete_def filter_id_conv)

lemma Model_save_fresh:
  assumes "pk x \<notin> set (map pk rows)"
  shows "Model_save pk x rows = rows @ [x]"
proof -
  have "\<not> (\<exists>r \<in> set rows. pk r = pk x)"
    using assms by (metis image_eqI set_map)
  then show ?thesis by (simp add: Model_save_def)
qed

lemma Model_save_rows: "r \<in> set (Model_save pk x rows) \<Longrightarrow> r = x \<or> r \<in> set rows"
  using set_Model_save [of pk x rows] by auto

subsection \<open>Evaluation\<close>

lemmas sample_defs = sample_slugify_def sample_VAT_def sample_product_def sample_cart_def
  default_comment_content_def
  sample_db_def sample_line_item_def sample_cart_filled_def sample_db_filled_def

lemmas method_defs = fits_def Product_save_def LineItem_product_def LineItem_save_def
  LineItem_delete_def LineItem_new_def
  LineItem_filter_def LineItem_get_or_create_def Cart_calculate_total_price_def Cart_save_def
  add_line_item_def update_line_item_def remove_line_item_def empty_cart_def
  Order_calculate_total_price_def Order_add_comment_def Order_gen_ref_number_def
  Order_Model_save_def Order_filled_def Order_new_def Order_save_def
  Order_objects_create_def make_order_def Model_save_def Model_delete_def next_pk_def
  cart_line_items_def order_line_items_def raised_def List.map_filter_def Let_def

text \<open>The filled sample database is what adding 1000 of the product to the empty cart gives.\<close>

lemma sample_reach:
  "add_line_item sample_cart sample_product 1000 sample_db
     = (Inr sample_cart_filled, sample_db_filled)"
  by (simp add: sample_defs method_defs)

lemma sample_Order_objects_create:
  "Order_objects_create sample_slugify sample_VAT [''R1''] sample_db_filled
     = (Inr (sample_order_made\<lparr>o_customer_account := None\<rparr>, []),
        sample_db_filled\<lparr>orders := [sample_order_made\<lparr>o_customer_account := None\<rparr>],
                          order_seq := 1\<rparr>)"
  by (simp add: sample_defs sample_order_made_def Order_objects_create_def Order_save_def
      Order_new_def Order_gen_ref_number_def Order_filled_def Order_calculate_total_price_def
      Order_Model_save_def fits_def next_pk_def List.map_filter_def Let_def)

lemma sample_Order_add_comment:
  "Order_add_comment (sample_order_made\<lparr>o_customer_account := None\<rparr>) default_comment_content
     (sample_db_filled\<lparr>orders := [sample_order_made\<lparr>o_customer_account := None\<rparr>],
                       order_seq := 1\<rparr>)
     = (Inr (), sample_db_filled\<lparr>orders := [sample_order_made\<lparr>o_customer_account := None\<rparr>],
          order_seq := 1,
          comments := [\<lparr>cm_pk = 1, cm_content = default_comment_content, cm_order = 1\<rparr>],
          comment_seq := 1\<rparr>)"
  by (simp add: sample_db_filled_def sample_order_made_def Order_add_comment_def next_pk_def
      Model_save_def Let_def)

lemma sample_make_order_loop:
  "make_order_loop sample_order_made [sample_line_item]
     (sample_db_filled\<lparr>orders := [sample_order_made\<lparr>o_customer_account := None\<rparr>],
          order_seq := 1,
          comments := [\<lparr>cm_pk = 1, cm_content = default_comment_content, cm_order = 1\<rparr>],
          comment_seq := 1\<rparr>)
     = (Inr (), sample_db_ordered\<lparr>orders := [sample_order_made\<lparr>o_customer_account := None\<rparr>],
                  carts := [sample_cart_filled]\<rparr>)"
  by (simp add: sample_db_filled_def sample_db_ordered_def sample_order_made_def
      sample_line_item_def sample_product_def LineItem_save_def LineItem_product_def fits_def
      Model_save_def Let_def)

lemma sample_Order_save:
  "Order_save sample_slugify sample_VAT [] sample_order_made
     (sample_db_ordered\<lparr>orders := [sample_order_made\<lparr>o_customer_account := None\<rparr>],
                  carts := [sample_cart_filled]\<rparr>)
     = (Inr (sample_order_made, []), sample_db_ordered\<lparr>carts := [sample_cart_filled]\<rparr>)"
  by (simp add: sample_db_ordered_def sample_order_made_def sample_line_item_def sample_VAT_def
      Order_save_def Order_gen_ref_number_def Order_filled_def Order_calculate_total_price_def
      Order_Model_save_def fits_def Model_save_def Let_def)

lemma sample_Cart_save:
  "Cart_save sample_cart_filled (sample_db_ordered\<lparr>carts := [sample_cart_filled]\<rparr>)
     = (Inr sample_cart, sample_db_ordered)"
  by (simp add: sample_db_ordered_def sample_cart_filled_def sample_cart_def sample_line_item_def
      Cart_save_def Cart_calculate_total_price_def cart_line_items_def fits_def Model_save_def
      Let_def)

lemma sample_make_order:
  "make_order sample_slugify sample_VAT [''R1''] sample_cart_filled sample_db_filled
     = (Inr (Some sample_order_made, sample_cart), sample_db_ordered)"
proof -
  have c: "c_total_price sample_cart_filled \<noteq> 0" "c_pk sample_cart_filled = 1"
    "c_customer_account sample_cart_filled = Some 7"
    by (simp_all add: sample_cart_filled_def)
  have o: "sample_order_made\<lparr>o_customer_account := None, o_customer_account := Some 7\<rparr>
             = sample_order_made"
    by (simp add: sample_order_made_def)
  have l: "cart_line_items 1 (sample_db_filled\<lparr>orders := [sample_order_made\<lparr>o_customer_account := None\<rparr>],
          order_seq := 1,
          comments := [\<lparr>cm_pk = 1, cm_content = default_comment_content, cm_order = 1\<rparr>],
          comment_seq := 1\<rparr>) = [sample_line_item]"
    by (simp add: cart_line_items_def sample_db_filled_def sample_line_item_def)
  show ?thesis
    unfolding make_order_def
    by (simp only: c sample_Order_objects_create sample_Order_add_comment Let_def o l
        sample_make_order_loop sample_Order_save sample_Cart_save
        if_False prod.case sum.case)
qed

lemma sample_run:
  "run sample_slugify sample_VAT
     [AddLineItem sample_cart sample_product 1000, MakeOrder [''R1''] sample_cart_filled]
     sample_db = (None, sample_db_ordered)"
  by (simp add: sample_reach sample_make_order raised_def)

subsection \<open>Zero-total abort\<close>

text \<open>
  C2.  When the cart's total price is zero, \<open>make_order\<close> returns no order and hands back
  the cart and the database as they were: no order and no comment is created, and no
  line item or cart row changes.
\<close>

theorem make_order_zero_total_aborts:
  "c_total_price self = 0 \<Longrightarrow>
   make_order slugify get_VAT_prices cands self db = (Inr (None, self), db)"
  by (simp add: make_order_def)

theorem make_order_zero_total_aborts_witness:
  "c_total_price sample_cart = 0 \<and>
   make_order sample_slugify sample_VAT [''A1''] sample_cart sample_db
     = (Inr (None, sample_cart), sample_db)"
  using make_order_zero_total_aborts [of sample_cart sample_slugify sample_VAT "[''A1'']" sample_db]
  by (simp add: sample_cart_def)

subsection \<open>Product slugs\<close>


lemma Product_save_db:
  "Product_save slugify self db = (r, db1) \<Longrightarrow> db1 = db \<or> (\<exists>ps. db1 = db\<lparr>products := ps\<rparr>)"
  by (auto simp: Product_save_def Let_def split: if_splits)



subsection \<open>Saving a line item\<close>

lemma LineItem_product_quantity [simp]:
  "LineItem_product cached (self\<lparr>li_quantity := q\<rparr>) db = LineItem_product cached self db"
  by (simp add: LineItem_product_def split: option.splits)

lemma LineItem_saved_fields [simp]:
  "li_pk (LineItem_saved p self) = li_pk self"
  "li_product (LineItem_saved p self) = li_product self"
  "li_cart (LineItem_saved p self) = li_cart self"
  "li_order (LineItem_saved p self) = li_order self"
  "li_quantity (LineItem_saved p self) = max 1000 (li_quantity self)"
  "li_price (LineItem_saved p self) = p_price p * max 1000 (li_quantity self)"
  by (simp_all add: LineItem_saved_def)

lemma LineItem_save_Inr:
  assumes "LineItem_product cached self db = Inr p"
    and "fits (p_price p * max 1000 (li_quantity self))"
  shows "LineItem_save cached self db =
           (Inr (LineItem_saved p self),
            db\<lparr>line_items := Model_save li_pk (LineItem_saved p self) (line_items db),
               line_item_seq := max (line_item_seq db) (li_pk self)\<rparr>)"
proof (cases "li_quantity self < 1000")
  case True
  then have "max 1000 (li_quantity self) = 1000" by simp
  with True assms show ?thesis
    by (simp add: LineItem_save_def LineItem_saved_def Let_def)
next
  case False
  then have "max 1000 (li_quantity self) = li_quantity self" by simp
  with False assms show ?thesis
    by (simp add: LineItem_save_def LineItem_saved_def Let_def)
qed

lemma LineItem_save_Inl:
  "LineItem_product cached self db = Inl e \<Longrightarrow> LineItem_save cached self db = (Inl e, db)"
  by (simp add: LineItem_save_def Let_def)

lemma LineItem_save_unfit:
  assumes "LineItem_product cached self db = Inr p"
    and "\<not> fits (p_price p * max 1000 (li_quantity self))"
  shows "LineItem_save cached self db = (Inl InvalidOperation, db)"
proof (cases "li_quantity self < 1000")
  case True
  then have "max 1000 (li_quantity self) = 1000" by simp
  with True assms show ?thesis
    by (simp add: LineItem_save_def Let_def)
next
  case False
  then have "max 1000 (li_quantity self) = li_quantity self" by simp
  with False assms show ?thesis
    by (simp add: LineItem_save_def Let_def)
qed

lemma LineItem_save_cases:
  "(\<exists>e. LineItem_save cached self db = (Inl e, db)) \<or>
   (\<exists>p. LineItem_product cached self db = Inr p \<and>
        fits (p_price p * max 1000 (li_quantity self)) \<and>
        LineItem_save cached self db =
           (Inr (LineItem_saved p self),
            db\<lparr>line_items := Model_save li_pk (LineItem_saved p self) (line_items db),
               line_item_seq := max (line_item_seq db) (li_pk self)\<rparr>))"
proof (cases "LineItem_product cached self db")
  case (Inl e)
  then show ?thesis by (simp add: LineItem_save_Inl)
next
  case (Inr p)
  show ?thesis
  proof (cases "fits (p_price p * max 1000 (li_quantity self))")
    case True
    with Inr LineItem_save_Inr [OF Inr True] show ?thesis by simp
  next
    case False
    with LineItem_save_unfit [OF Inr False] show ?thesis by simp
  qed
qed

lemma LineItem_save_InrD:
  assumes "LineItem_save cached self db = (Inr self1, db1)"
  shows "\<exists>p. LineItem_product cached self db = Inr p \<and> self1 = LineItem_saved p self \<and>
             fits (li_price self1) \<and>
             db1 = db\<lparr>line_items := Model_save li_pk self1 (line_items db),
                      line_item_seq := max (line_item_seq db) (li_pk self)\<rparr>"
  using LineItem_save_cases [of cached self db] assms by auto

lemma LineItem_save_InlD:
  "LineItem_save cached self db = (Inl e, db1) \<Longrightarrow> db1 = db"
  using LineItem_save_cases [of cached self db] by auto

text \<open>
  C10.  Whenever \<open>LineItem_save\<close> returns, the line item's product has resolved, and both
  the instance and the row persisted under its key hold the extended price: the unit
  price of that product times the quantity after it has been raised to at least 1000.
\<close>

theorem LineItem_save_extended_price:
  "LineItem_save cached self db = (Inr self1, db1) \<Longrightarrow>
   \<exists>p. LineItem_product cached self db = Inr p \<and>
     li_quantity self1 = max 1000 (li_quantity self) \<and>
     li_price self1 = p_price p * li_quantity self1 \<and>
     find (\<lambda>li. li_pk li = li_pk self) (line_items db1) = Some self1"
proof -
  assume a: "LineItem_save cached self db = (Inr self1, db1)"
  from LineItem_save_InrD [OF a] obtain p where
    p: "LineItem_product cached self db = Inr p" and s: "self1 = LineItem_saved p self"
    and d: "db1 = db\<lparr>line_items := Model_save li_pk self1 (line_items db),
                      line_item_seq := max (line_item_seq db) (li_pk self)\<rparr>"
    by blast
  have "find (\<lambda>li. li_pk li = li_pk self1) (line_items db1) = Some self1"
    unfolding d using find_Model_save [of li_pk self1 "line_items db"] by simp
  then have "find (\<lambda>li. li_pk li = li_pk self) (line_items db1) = Some self1"
    by (simp add: s)
  with p s show ?thesis by simp
qed

theorem LineItem_save_extended_price_witness:
  "LineItem_save None (sample_line_item\<lparr>li_quantity := 1200\<rparr>) sample_db_filled
     = (Inr (sample_line_item\<lparr>li_quantity := 1200, li_price := 300000\<rparr>),
        sample_db_filled\<lparr>line_items :=
              [sample_line_item\<lparr>li_quantity := 1200, li_price := 300000\<rparr>]\<rparr>) \<and>
   LineItem_product None (sample_line_item\<lparr>li_quantity := 1200\<rparr>) sample_db_filled
     = Inr sample_product \<and>
   max 1000 (li_quantity (sample_line_item\<lparr>li_quantity := 1200\<rparr>)) = 1200 \<and>
   p_price sample_product * 1200 = 300000 \<and>
   find (\<lambda>li. li_pk li = 1)
     (line_items (sample_db_filled\<lparr>line_items :=
              [sample_line_item\<lparr>li_quantity := 1200, li_price := 300000\<rparr>]\<rparr>))
     = Some (sample_line_item\<lparr>li_quantity := 1200, li_price := 300000\<rparr>)"
proof -
  have h: "LineItem_save None (sample_line_item\<lparr>li_quantity := 1200\<rparr>) sample_db_filled
     = (Inr (sample_line_item\<lparr>li_quantity := 1200, li_price := 300000\<rparr>),
        sample_db_filled\<lparr>line_items :=
              [sample_line_item\<lparr>li_quantity := 1200, li_price := 300000\<rparr>]\<rparr>)"
    by (simp add: sample_defs method_defs)
  show ?thesis
    using h LineItem_save_extended_price [OF h]
    by (simp add: sample_defs LineItem_product_def)
qed

subsection \<open>Finding or creating a line item\<close>

lemma LineItem_new_fresh:
  "li_pk (LineItem_new product c db) \<notin> set (map li_pk (line_items db))"
  using next_pk_notin [of "line_item_seq db" "map li_pk (line_items db)"]
  by (simp add: LineItem_new_def)

lemma LineItem_get_or_create_created:
  assumes "LineItem_filter product c db = []"
    and "fits (p_price product * 1000)"
  shows "LineItem_get_or_create product c db =
           (Inr (LineItem_saved product (LineItem_new product c db), Some product, True),
            db\<lparr>line_items := line_items db @ [LineItem_saved product (LineItem_new product c db)],
               line_item_seq := max (line_item_seq db) (li_pk (LineItem_new product c db))\<rparr>)"
proof -
  let ?li = "LineItem_saved product (LineItem_new product c db)"
  have "li_pk ?li \<notin> set (map li_pk (line_items db))"
    using LineItem_new_fresh [of product c db] by simp
  then have "Model_save li_pk ?li (line_items db) = line_items db @ [?li]"
    by (rule Model_save_fresh)
  moreover have "LineItem_product (Some product) (LineItem_new product c db) db = Inr product"
    by (simp add: LineItem_product_def)
  moreover have "fits (p_price product * max 1000 (li_quantity (LineItem_new product c db)))"
    using assms(2) by (simp add: LineItem_new_def)
  ultimately show ?thesis
    using assms(1) by (simp add: LineItem_get_or_create_def LineItem_save_Inr)
qed

lemma LineItem_get_or_create_unfit:
  assumes "LineItem_filter product c db = []"
    and "\<not> fits (p_price product * 1000)"
  shows "LineItem_get_or_create product c db = (Inl InvalidOperation, db)"
proof -
  have "LineItem_product (Some product) (LineItem_new product c db) db = Inr product"
    by (simp add: LineItem_product_def)
  moreover have "\<not> fits (p_price product * max 1000 (li_quantity (LineItem_new product c db)))"
    using assms(2) by (simp add: LineItem_new_def)
  ultimately show ?thesis
    using assms(1) by (simp add: LineItem_get_or_create_def LineItem_save_unfit)
qed

lemma LineItem_get_or_create_found:
  "LineItem_filter product c db = [li] \<Longrightarrow>
     LineItem_get_or_create product c db = (Inr (li, None, False), db)"
  by (simp add: LineItem_get_or_create_def)

lemma LineItem_get_or_create_many:
  "LineItem_filter product c db = a # b # others \<Longrightarrow>
     LineItem_get_or_create product c db = (Inl MultipleObjectsReturned, db)"
  by (simp add: LineItem_get_or_create_def)

lemma LineItem_delete_created:
  "li_pk li \<notin> set (map li_pk (line_items db)) \<Longrightarrow>
     LineItem_delete li (db\<lparr>line_items := line_items db @ [li], line_item_seq := n\<rparr>)
       = db\<lparr>line_item_seq := n\<rparr>"
  by (simp add: LineItem_delete_def Model_delete_fresh)

lemma add_line_item_created_below:
  assumes "quantity < 1000" and "LineItem_filter product self db = []"
  shows "add_line_item self product quantity db = (Inl InvalidOperation, db) \<or>
         add_line_item self product quantity db
           = (Inr self, db\<lparr>line_item_seq :=
                max (line_item_seq db) (li_pk (LineItem_new product self db))\<rparr>)"
proof (cases "fits (p_price product * 1000)")
  case True
  let ?li = "LineItem_saved product (LineItem_new product self db)"
  have "li_pk ?li \<notin> set (map li_pk (line_items db))"
    using LineItem_new_fresh [of product self db] by simp
  from LineItem_delete_created [OF this] LineItem_get_or_create_created [OF assms(2) True] assms(1)
  show ?thesis by (simp add: add_line_item_def)
next
  case False
  from LineItem_get_or_create_unfit [OF assms(2) False] show ?thesis
    by (simp add: add_line_item_def)
qed

subsection \<open>Minimum quantity\<close>

text \<open>
  C3, as the code has it.  For a quantity below 1000, \<open>update_line_item\<close> returns with
  the cart and the database as they were.  So does \<open>add_line_item\<close> when the cart holds no
  line item for the product: whether it returns or raises, no table has changed (the row
  it may have created is deleted again; only the key sequence of the line items may have
  moved), and when it returns the cart instance is as it was.
\<close>

theorem min_quantity_aborts:
  "quantity < 1000 \<Longrightarrow>
     update_line_item self product quantity db = (Inr self, db) \<and>
     (LineItem_filter product self db = [] \<longrightarrow>
        add_line_item self product quantity db = (r, db1) \<longrightarrow>
          db1\<lparr>line_item_seq := line_item_seq db\<rparr> = db \<and>
          line_items db1 = line_items db \<and> carts db1 = carts db \<and>
          (\<forall>c. r = Inr c \<longrightarrow> c = self))"
proof -
  assume q: "quantity < 1000"
  have "db1\<lparr>line_item_seq := line_item_seq db\<rparr> = db \<and>
          line_items db1 = line_items db \<and> carts db1 = carts db \<and>
          (\<forall>c. r = Inr c \<longrightarrow> c = self)"
    if "LineItem_filter product self db = []" and "add_line_item self product quantity db = (r, db1)"
    using add_line_item_created_below [OF q that(1)] that(2) by auto
  with q show ?thesis by (simp add: update_line_item_def)
qed

theorem min_quantity_aborts_witness:
  "(999::int) < 1000 \<and>
   update_line_item sample_cart_filled sample_product 999 sample_db_filled
     = (Inr sample_cart_filled, sample_db_filled) \<and>
   LineItem_filter sample_product sample_cart sample_db = [] \<and>
   add_line_item sample_cart sample_product 999 sample_db
     = (Inr sample_cart, sample_db\<lparr>line_item_seq := 1\<rparr>) \<and>
   sample_db\<lparr>line_item_seq := 1, line_item_seq := line_item_seq sample_db\<rparr> = sample_db \<and>
   line_items (sample_db\<lparr>line_item_seq := 1\<rparr>) = line_items sample_db \<and>
   carts (sample_db\<lparr>line_item_seq := 1\<rparr>) = carts sample_db"
proof -
  have h: "(999::int) < 1000" by simp
  have f: "LineItem_filter sample_product sample_cart sample_db = []"
    by (simp add: sample_defs LineItem_filter_def)
  have a: "add_line_item sample_cart sample_product 999 sample_db
     = (Inr sample_cart, sample_db\<lparr>line_item_seq := 1\<rparr>)"
    by (simp add: sample_defs method_defs)
  show ?thesis
    using h f a
      min_quantity_aborts [OF h, of sample_cart_filled sample_product sample_db_filled]
      min_quantity_aborts [OF h, of sample_cart sample_product sample_db "Inr sample_cart"
        "sample_db\<lparr>line_item_seq := 1\<rparr>"]
    by simp
qed

text \<open>
  The claim as stated fails: the sample cart holds 1000 of the product; adding 5 more is
  not aborted, the line item's quantity becomes 1005 and the cart's total follows.
\<close>

theorem add_line_item_below_minimum_counterexample:
  "(5::int) < 1000 \<and>
   add_line_item sample_cart_filled sample_product 5 sample_db_filled
     = (Inr (sample_cart_filled\<lparr>c_total_price := 251250\<rparr>),
        sample_db_filled\<lparr>carts := [sample_cart_filled\<lparr>c_total_price := 251250\<rparr>],
              line_items := [sample_line_item\<lparr>li_quantity := 1005, li_price := 251250\<rparr>]\<rparr>) \<and>
   line_items sample_db_filled = [sample_line_item] \<and>
   li_quantity sample_line_item = 1000 \<and>
   c_total_price sample_cart_filled = 250000"
  by (simp add: sample_defs method_defs)

subsection \<open>Properties of every line item\<close>

text \<open>
  A property \<open>P\<close> of line items that a newly created line item has, and that a line
  item keeps when it is saved with another quantity or saved attached to an order instead
  of its cart, holds of every row after an operation when it held of every row before,
  whether the operation returns or raises.
\<close>

lemma raised_result: "raised res = (r, db1) \<Longrightarrow> \<exists>v. res = (v, db1)"
  by (auto simp: raised_def split: prod.splits sum.splits)

lemma raised_Inr [simp]: "raised (Inr v, db) = (None, db)"
  by (simp add: raised_def)

lemma raised_Inl [simp]: "raised (Inl e, db) = (Some e, db)"
  by (simp add: raised_def)

lemma line_items_LineItem_delete:
  "set (line_items (LineItem_delete li db)) \<subseteq> set (line_items db)"
  by (simp add: LineItem_delete_def set_Model_delete)

lemma line_items_fold_delete:
  "set (line_items (fold LineItem_delete lis db)) \<subseteq> set (line_items db)"
proof (induction lis arbitrary: db)
  case Nil
  show ?case by simp
next
  case (Cons li lis)
  have "set (line_items (fold LineItem_delete lis (LineItem_delete li db)))
          \<subseteq> set (line_items (LineItem_delete li db))"
    by (rule Cons.IH)
  also have "\<dots> \<subseteq> set (line_items db)" by (rule line_items_LineItem_delete)
  finally show ?case by simp
qed

lemma Cart_save_line_items:
  "Cart_save self db = (r, db1) \<Longrightarrow> line_items db1 = line_items db"
  by (auto simp: Cart_save_def Let_def split: if_splits)

lemma Order_Model_save_line_items:
  "Order_Model_save self db = (r, db1) \<Longrightarrow> line_items db1 = line_items db"
  by (auto simp: Order_Model_save_def Let_def split: if_splits option.splits)

lemma Order_Model_save_pk:
  "Order_Model_save self db = (Inr self1, db1) \<Longrightarrow> \<exists>k. o_pk self1 = Some k"
  by (auto simp: Order_Model_save_def Let_def split: if_splits option.splits)

lemma Order_save_line_items:
  "Order_save slugify vat cands self db = (r, db1) \<Longrightarrow> line_items db1 = line_items db"
proof (cases "Order_gen_ref_number cands self db")
  case (Inl e)
  assume "Order_save slugify vat cands self db = (r, db1)"
  with Inl show ?thesis by (simp add: Order_save_def)
next
  case (Inr v)
  assume a: "Order_save slugify vat cands self db = (r, db1)"
  obtain self1 rest where v: "v = (self1, rest)" by (cases v)
  obtain r2 db2 where m: "Order_Model_save (Order_filled slugify vat self1 db) db = (r2, db2)"
    by (cases "Order_Model_save (Order_filled slugify vat self1 db) db")
  from a Inr v m have "db1 = db2" by (cases r2) (simp_all add: Order_save_def)
  with Order_Model_save_line_items [OF m] show ?thesis by simp
qed

lemma Order_save_pk:
  assumes "Order_save slugify vat cands self db = (Inr (self2, rest2), db1)"
  shows "\<exists>k. o_pk self2 = Some k"
proof (cases "Order_gen_ref_number cands self db")
  case (Inl e)
  with assms show ?thesis by (simp add: Order_save_def)
next
  case (Inr v)
  obtain self1 rest where v: "v = (self1, rest)" by (cases v)
  obtain r2 db2 where m: "Order_Model_save (Order_filled slugify vat self1 db) db = (r2, db2)"
    by (cases "Order_Model_save (Order_filled slugify vat self1 db) db")
  from assms Inr v m have "r2 = Inr self2" by (cases r2) (simp_all add: Order_save_def)
  with m show ?thesis by (auto dest: Order_Model_save_pk)
qed

lemma Order_add_comment_line_items:
  "Order_add_comment ord content db = (r, db1) \<Longrightarrow> line_items db1 = line_items db"
  by (auto simp: Order_add_comment_def Let_def split: option.splits)

lemma LineItem_save_pred:
  assumes sv: "LineItem_save cached li db = (r, db2)"
    and inv: "\<forall>x \<in> set (line_items db). P x"
    and new: "\<And>p. P (LineItem_saved p li)"
  shows "\<forall>x \<in> set (line_items db2). P x"
  using LineItem_save_cases [of cached li db]
proof (elim disjE exE conjE)
  fix e assume "LineItem_save cached li db = (Inl e, db)"
  with sv inv show ?thesis by simp
next
  fix p
  assume "LineItem_save cached li db =
           (Inr (LineItem_saved p li),
            db\<lparr>line_items := Model_save li_pk (LineItem_saved p li) (line_items db),
               line_item_seq := max (line_item_seq db) (li_pk li)\<rparr>)"
  with sv have "line_items db2 = Model_save li_pk (LineItem_saved p li) (line_items db)"
    by auto
  then have "set (line_items db2) \<subseteq> insert (LineItem_saved p li) (set (line_items db))"
    using set_Model_save [of li_pk "LineItem_saved p li" "line_items db"] by simp
  with inv new show ?thesis by auto
qed

lemma LineItem_get_or_create_pred:
  assumes g: "LineItem_get_or_create product c db = (r, db0)"
    and inv: "\<forall>x \<in> set (line_items db). P x"
    and new: "\<And>p c db. P (LineItem_saved p (LineItem_new p c db))"
  shows "(\<forall>x \<in> set (line_items db0). P x) \<and>
         (\<forall>li cached created. r = Inr (li, cached, created) \<longrightarrow> P li)"
proof (cases "LineItem_filter product c db")
  case Nil
  show ?thesis
  proof (cases "fits (p_price product * 1000)")
    case True
    from LineItem_get_or_create_created [OF Nil True] g inv new show ?thesis by auto
  next
    case False
    from LineItem_get_or_create_unfit [OF Nil False] g inv show ?thesis by auto
  qed
next
  case (Cons a as)
  show ?thesis
  proof (cases as)
    case Nil
    with Cons have f: "LineItem_filter product c db = [a]" by simp
    then have "a \<in> set (line_items db)"
      by (metis LineItem_filter_def filter_is_subset list.set_intros(1) subsetD)
    with LineItem_get_or_create_found [OF f] g inv show ?thesis by auto
  next
    case (Cons b bs)
    with \<open>LineItem_filter product c db = a # as\<close> g inv show ?thesis
      by (auto simp: LineItem_get_or_create_many)
  qed
qed

lemma save_then_Cart_save_pred:
  assumes a: "(case LineItem_save cached li db0 of
                 (Inl e, db2) \<Rightarrow> (Inl e, db2)
               | (Inr li1, db2) \<Rightarrow> Cart_save self db2) = (r, db1)"
    and inv: "\<forall>x \<in> set (line_items db0). P x"
    and new: "\<And>p. P (LineItem_saved p li)"
  shows "\<forall>x \<in> set (line_items db1). P x"
proof -
  obtain rs db2 where s: "LineItem_save cached li db0 = (rs, db2)"
    by (cases "LineItem_save cached li db0")
  from LineItem_save_pred [OF s inv new] have i2: "\<forall>x \<in> set (line_items db2). P x" .
  show ?thesis
  proof (cases rs)
    case (Inl e)
    with a s have "db1 = db2" by simp
    with i2 show ?thesis by simp
  next
    case (Inr li1)
    with a s have "Cart_save self db2 = (r, db1)" by simp
    from Cart_save_line_items [OF this] i2 show ?thesis by simp
  qed
qed

lemma add_line_item_pred:
  assumes a: "add_line_item self product quantity db = (r, db1)"
    and inv: "\<forall>x \<in> set (line_items db). P x"
    and svq: "\<And>p li q. P li \<Longrightarrow> P (LineItem_saved p (li\<lparr>li_quantity := q\<rparr>))"
    and new: "\<And>p c db. P (LineItem_saved p (LineItem_new p c db))"
  shows "\<forall>x \<in> set (line_items db1). P x"
proof -
  obtain rg db0 where g: "LineItem_get_or_create product self db = (rg, db0)"
    by (cases "LineItem_get_or_create product self db")
  from LineItem_get_or_create_pred [of product self db rg db0 P, OF g inv new]
  have inv0: "\<forall>x \<in> set (line_items db0). P x"
    and pli: "\<And>li cached created. rg = Inr (li, cached, created) \<Longrightarrow> P li"
    by auto
  show ?thesis
  proof (cases rg)
    case (Inl e)
    with a g have "db1 = db0" by (simp add: add_line_item_def)
    with inv0 show ?thesis by simp
  next
    case (Inr v)
    obtain li cached created where v: "v = (li, cached, created)" by (cases v)
    from pli Inr v have p: "P li" by simp
    show ?thesis
    proof (cases "created \<and> quantity < 1000")
      case True
      with a g Inr v have "db1 = LineItem_delete li db0" by (simp add: add_line_item_def)
      with inv0 line_items_LineItem_delete [of li db0] show ?thesis by auto
    next
      case False
      let ?li = "if created then li\<lparr>li_quantity := quantity\<rparr>
                 else li\<lparr>li_quantity := li_quantity li + quantity\<rparr>"
      from False g Inr v a
      have c: "(case LineItem_save cached ?li db0 of
                 (Inl e, db2) \<Rightarrow> (Inl e, db2)
               | (Inr li1, db2) \<Rightarrow> Cart_save self db2) = (r, db1)"
        by (auto simp: add_line_item_def split: if_splits)
      have "\<And>p. P (LineItem_saved p ?li)" using p svq by simp
      from save_then_Cart_save_pred [OF c inv0 this] show ?thesis .
    qed
  qed
qed

lemma update_line_item_pred:
  assumes a: "update_line_item self product quantity db = (r, db1)"
    and inv: "\<forall>x \<in> set (line_items db). P x"
    and svq: "\<And>p li q. P li \<Longrightarrow> P (LineItem_saved p (li\<lparr>li_quantity := q\<rparr>))"
    and new: "\<And>p c db. P (LineItem_saved p (LineItem_new p c db))"
  shows "\<forall>x \<in> set (line_items db1). P x"
proof (cases "quantity < 1000")
  case True
  with a inv show ?thesis by (simp add: update_line_item_def)
next
  case False
  obtain rg db0 where g: "LineItem_get_or_create product self db = (rg, db0)"
    by (cases "LineItem_get_or_create product self db")
  from LineItem_get_or_create_pred [of product self db rg db0 P, OF g inv new]
  have inv0: "\<forall>x \<in> set (line_items db0). P x"
    and pli: "\<And>li cached created. rg = Inr (li, cached, created) \<Longrightarrow> P li"
    by auto
  show ?thesis
  proof (cases rg)
    case (Inl e)
    with False a g have "db1 = db0" by (simp add: update_line_item_def)
    with inv0 show ?thesis by simp
  next
    case (Inr v)
    obtain li cached created where v: "v = (li, cached, created)" by (cases v)
    from pli Inr v have p: "P li" by simp
    let ?li = "li\<lparr>li_quantity := quantity\<rparr>"
    from False g Inr v a
    have c: "(case LineItem_save cached ?li db0 of
               (Inl e, db2) \<Rightarrow> (Inl e, db2)
             | (Inr li1, db2) \<Rightarrow> Cart_save self db2) = (r, db1)"
      by (simp add: update_line_item_def)
    have "\<And>p. P (LineItem_saved p ?li)" using p by (rule svq)
    from save_then_Cart_save_pred [OF c inv0 this] show ?thesis .
  qed
qed

lemma make_order_loop_pred:
  assumes "make_order_loop ord lis db = (r, db1)"
    and "\<forall>x \<in> set (line_items db). P x" and "\<forall>x \<in> set lis. P x"
    and pk: "o_pk ord = Some k"
    and svm: "\<And>p li k. P li \<Longrightarrow>
                P (LineItem_saved p (li\<lparr>li_order := Some k, li_cart := None\<rparr>))"
  shows "\<forall>x \<in> set (line_items db1). P x"
  using assms(1-3)
proof (induction lis arbitrary: db)
  case Nil
  then show ?case by simp
next
  case (Cons li lis)
  let ?li = "li\<lparr>li_order := Some k, li_cart := None\<rparr>"
  obtain rs db2 where s: "LineItem_save None ?li db = (rs, db2)"
    by (cases "LineItem_save None ?li db")
  have "\<And>p. P (LineItem_saved p ?li)" using Cons.prems(3) by (simp add: svm)
  from LineItem_save_pred [OF s Cons.prems(2) this] have i2: "\<forall>x \<in> set (line_items db2). P x" .
  show ?case
  proof (cases rs)
    case (Inl e)
    with Cons.prems(1) s pk have "db1 = db2" by simp
    with i2 show ?thesis by simp
  next
    case (Inr li1)
    with Cons.prems(1) s pk have l: "make_order_loop ord lis db2 = (r, db1)" by simp
    from Cons.IH [OF l i2] Cons.prems(3) show ?thesis by simp
  qed
qed

lemma make_order_pred:
  assumes m: "make_order slugify vat cands self db = (r, db1)"
    and inv: "\<forall>x \<in> set (line_items db). P x"
    and svm: "\<And>p li k. P li \<Longrightarrow>
                P (LineItem_saved p (li\<lparr>li_order := Some k, li_cart := None\<rparr>))"
  shows "\<forall>x \<in> set (line_items db1). P x"
proof (cases "c_total_price self = 0")
  case True
  with m inv show ?thesis by (simp add: make_order_def)
next
  case nz: False
  obtain ro db0 where cr: "Order_objects_create slugify vat cands db = (ro, db0)"
    by (cases "Order_objects_create slugify vat cands db")
  have "line_items db0 = line_items db"
    using cr unfolding Order_objects_create_def by (rule Order_save_line_items)
  with inv have i0: "\<forall>x \<in> set (line_items db0). P x" by simp
  show ?thesis
  proof (cases ro)
    case (Inl e)
    with m nz cr have "db1 = db0" by (simp add: make_order_def)
    with i0 show ?thesis by simp
  next
    case created: (Inr v)
    obtain ord rest where v: "v = (ord, rest)" by (cases v)
    from cr created v obtain k where k: "o_pk ord = Some k"
      unfolding Order_objects_create_def by (auto dest: Order_save_pk)
    obtain rc dbc where ac: "Order_add_comment ord default_comment_content db0 = (rc, dbc)"
      by (cases "Order_add_comment ord default_comment_content db0")
    from Order_add_comment_line_items [OF ac] i0
    have ic: "\<forall>x \<in> set (line_items dbc). P x" by simp
    show ?thesis
    proof (cases rc)
      case (Inl e)
      with m nz cr created v ac have "db1 = dbc" by (simp add: make_order_def)
      with ic show ?thesis by simp
    next
      case commented: (Inr u)
      let ?o = "ord\<lparr>o_customer_account := c_customer_account self\<rparr>"
      obtain rl db3 where lp: "make_order_loop ?o (cart_line_items (c_pk self) dbc) dbc = (rl, db3)"
        by (cases "make_order_loop ?o (cart_line_items (c_pk self) dbc) dbc")
      have "\<forall>x \<in> set (cart_line_items (c_pk self) dbc). P x"
        using ic by (simp add: cart_line_items_def)
      from make_order_loop_pred [OF lp ic this _ svm, of k] k
      have i3: "\<forall>x \<in> set (line_items db3). P x" by simp
      show ?thesis
      proof (cases rl)
        case (Inl e)
        with m nz cr created v ac commented lp have "db1 = db3"
          by (simp add: make_order_def Let_def)
        with i3 show ?thesis by simp
      next
        case moved: (Inr u1)
        obtain rs db4 where os: "Order_save slugify vat rest ?o db3 = (rs, db4)"
          by (cases "Order_save slugify vat rest ?o db3")
        from Order_save_line_items [OF os] i3
        have i4: "\<forall>x \<in> set (line_items db4). P x" by simp
        show ?thesis
        proof (cases rs)
          case (Inl e)
          with m nz cr created v ac commented lp moved os have "db1 = db4"
            by (simp add: make_order_def Let_def)
          with i4 show ?thesis by simp
        next
          case saved: (Inr w)
          obtain order2 rest2 where w: "w = (order2, rest2)" by (cases w)
          obtain rcs db5 where cs: "Cart_save self db4 = (rcs, db5)"
            by (cases "Cart_save self db4")
          from m nz cr created v ac commented lp moved os saved w cs have "db1 = db5"
            by (cases rcs) (simp_all add: make_order_def Let_def)
          with Cart_save_line_items [OF cs] i4 show ?thesis by simp
        qed
      qed
    qed
  qed
qed

lemma step_pred:
  assumes st: "step slugify vat x db = (r, db1)"
    and inv: "\<forall>li \<in> set (line_items db). P li"
    and svq: "\<And>p li q. P li \<Longrightarrow> P (LineItem_saved p (li\<lparr>li_quantity := q\<rparr>))"
    and new: "\<And>p c db. P (LineItem_saved p (LineItem_new p c db))"
    and svm: "\<And>p li k. P li \<Longrightarrow>
                P (LineItem_saved p (li\<lparr>li_order := Some k, li_cart := None\<rparr>))"
    and direct: "\<And>li p. x = LineItemSave li \<Longrightarrow> P (LineItem_saved p li)"
  shows "\<forall>li \<in> set (line_items db1). P li"
proof (cases x)
  case (AddLineItem c p q)
  with st obtain v where "add_line_item c p q db = (v, db1)"
    by (auto dest: raised_result)
  from add_line_item_pred [OF this inv svq new] show ?thesis .
next
  case (UpdateLineItem c p q)
  with st obtain v where "update_line_item c p q db = (v, db1)"
    by (auto dest: raised_result)
  from update_line_item_pred [OF this inv svq new] show ?thesis .
next
  case (RemoveLineItem c li)
  with st obtain v where "Cart_save c (LineItem_delete li db) = (v, db1)"
    by (auto simp: remove_line_item_def dest: raised_result)
  from Cart_save_line_items [OF this] line_items_LineItem_delete [of li db] inv
  show ?thesis by auto
next
  case (EmptyCart c)
  with st obtain v where
    "Cart_save c (fold LineItem_delete (cart_line_items (c_pk c) db) db) = (v, db1)"
    by (auto simp: empty_cart_def dest: raised_result)
  from Cart_save_line_items [OF this] line_items_fold_delete [of "cart_line_items (c_pk c) db" db]
    inv
  show ?thesis by auto
next
  case (MakeOrder cands c)
  with st obtain v where "make_order slugify vat cands c db = (v, db1)"
    by (auto dest: raised_result)
  from make_order_pred [OF this inv svm] show ?thesis .
next
  case (ProductSave p)
  with st obtain v where "Product_save slugify p db = (v, db1)"
    by (auto dest: raised_result)
  from Product_save_db [OF this] inv show ?thesis by auto
next
  case (OrderSave cands ord)
  with st obtain v where "Order_save slugify vat cands ord db = (v, db1)"
    by (auto dest: raised_result)
  from Order_save_line_items [OF this] inv show ?thesis by simp
next
  case (LineItemSave li)
  with st obtain v where s: "LineItem_save None li db = (v, db1)"
    by (auto dest: raised_result)
  have "\<And>p. P (LineItem_saved p li)" using LineItemSave by (rule direct)
  from LineItem_save_pred [OF s inv this] show ?thesis .
qed

lemma run_pred:
  assumes "run slugify vat ops db = (r, db1)"
    and "\<forall>li \<in> set (line_items db). P li"
    and svq: "\<And>p li q. P li \<Longrightarrow> P (LineItem_saved p (li\<lparr>li_quantity := q\<rparr>))"
    and new: "\<And>p c db. P (LineItem_saved p (LineItem_new p c db))"
    and svm: "\<And>p li k. P li \<Longrightarrow>
                P (LineItem_saved p (li\<lparr>li_order := Some k, li_cart := None\<rparr>))"
    and direct: "\<And>li p. LineItemSave li \<in> set ops \<Longrightarrow> P (LineItem_saved p li)"
  shows "\<forall>li \<in> set (line_items db1). P li"
  using assms(1,2) direct
proof (induction ops arbitrary: db)
  case Nil
  then show ?case by simp
next
  case (Cons x xs)
  obtain rs d where s: "step slugify vat x db = (rs, d)"
    by (cases "step slugify vat x db")
  have i: "\<forall>li \<in> set (line_items d). P li"
    using s Cons.prems(2) svq new svm
  proof (rule step_pred)
    fix li p assume "x = LineItemSave li"
    then show "P (LineItem_saved p li)" using Cons.prems(3) by simp
  qed
  show ?case
  proof (cases rs)
    case (Some e)
    with Cons.prems(1) s have "db1 = d" by simp
    with i show ?thesis by simp
  next
    case None
    with Cons.prems(1) s have r: "run slugify vat xs d = (r, db1)" by simp
    from Cons.IH [OF r i] Cons.prems(3) show ?thesis by simp
  qed
qed

subsection \<open>Minimum quantity of persisted line items\<close>

text \<open>
  C9.  \<open>LineItem_save\<close> does not abort on a quantity below 1000: it does what it does on
  the same line item with quantity 1000.  Whenever it returns, the instance and the row
  persisted under its key have a quantity of at least 1000, and exactly 1000 when the
  quantity was below.  Since every write of a line item goes through \<open>LineItem_save\<close>, a
  run of operations (direct saves of line items included) from a database whose line
  items all have quantity at least 1000 ends in such a database, whether the run
  completes or stops at an exception.
\<close>

theorem quantity_at_least_1000:
  "(li_quantity self < 1000 \<longrightarrow>
      LineItem_save cached self db = LineItem_save cached (self\<lparr>li_quantity := 1000\<rparr>) db) \<and>
   (LineItem_save cached self db = (Inr self1, db1) \<longrightarrow>
      1000 \<le> li_quantity self1 \<and>
      (li_quantity self < 1000 \<longrightarrow> li_quantity self1 = 1000) \<and>
      find (\<lambda>li. li_pk li = li_pk self) (line_items db1) = Some self1) \<and>
   ((\<forall>li \<in> set (line_items db). 1000 \<le> li_quantity li) \<longrightarrow>
      run slugify vat ops db = (r, db2) \<longrightarrow>
      (\<forall>li \<in> set (line_items db2). 1000 \<le> li_quantity li))"
proof (intro conjI impI)
  assume "li_quantity self < 1000"
  then show "LineItem_save cached self db = LineItem_save cached (self\<lparr>li_quantity := 1000\<rparr>) db"
    by (simp add: LineItem_save_def Let_def)
next
  assume a: "LineItem_save cached self db = (Inr self1, db1)"
  from LineItem_save_InrD [OF a] obtain p where
    s: "self1 = LineItem_saved p self"
    and d: "db1 = db\<lparr>line_items := Model_save li_pk self1 (line_items db),
                      line_item_seq := max (line_item_seq db) (li_pk self)\<rparr>"
    by blast
  from s show "1000 \<le> li_quantity self1" by simp
  have "find (\<lambda>li. li_pk li = li_pk self1) (line_items db1) = Some self1"
    unfolding d using find_Model_save [of li_pk self1 "line_items db"] by simp
  then show "find (\<lambda>li. li_pk li = li_pk self) (line_items db1) = Some self1"
    by (simp add: s)
  assume "li_quantity self < 1000"
  with s show "li_quantity self1 = 1000" by simp
next
  assume inv: "\<forall>li \<in> set (line_items db). 1000 \<le> li_quantity li"
    and r: "run slugify vat ops db = (r, db2)"
  show "\<forall>li \<in> set (line_items db2). 1000 \<le> li_quantity li"
    using r inv by (rule run_pred) simp_all
qed

theorem quantity_at_least_1000_witness:
  "li_quantity (sample_line_item\<lparr>li_quantity := 3\<rparr>) < 1000 \<and>
   LineItem_save None (sample_line_item\<lparr>li_quantity := 3\<rparr>) sample_db_filled
     = (Inr sample_line_item, sample_db_filled) \<and>
   LineItem_save None (sample_line_item\<lparr>li_quantity := 3, li_quantity := 1000\<rparr>) sample_db_filled
     = (Inr sample_line_item, sample_db_filled) \<and>
   li_quantity sample_line_item = 1000 \<and>
   find (\<lambda>li. li_pk li = li_pk (sample_line_item\<lparr>li_quantity := 3\<rparr>)) (line_items sample_db_filled)
     = Some sample_line_item \<and>
   line_items sample_db = [] \<and>
   run sample_slugify sample_VAT
     [AddLineItem sample_cart sample_product 1000, MakeOrder [''R1''] sample_cart_filled]
     sample_db = (None, sample_db_ordered) \<and>
   line_items sample_db_ordered = [sample_line_item\<lparr>li_cart := None, li_order := Some 1\<rparr>] \<and>
   1000 \<le> li_quantity (sample_line_item\<lparr>li_cart := None, li_order := Some 1\<rparr>)"
proof -
  have h1: "li_quantity (sample_line_item\<lparr>li_quantity := 3\<rparr>) < 1000" by simp
  have h2: "LineItem_save None (sample_line_item\<lparr>li_quantity := 3\<rparr>) sample_db_filled
     = (Inr sample_line_item, sample_db_filled)"
    by (simp add: sample_defs method_defs)
  have h3: "\<forall>li \<in> set (line_items sample_db). 1000 \<le> li_quantity li"
    by (simp add: sample_db_def)
  note t = quantity_at_least_1000 [where self = "sample_line_item\<lparr>li_quantity := 3\<rparr>"
      and cached = None and db = sample_db_filled and ?self1.0 = sample_line_item
      and ?db1.0 = sample_db_filled and slugify = sample_slugify
      and vat = sample_VAT and ?db2.0 = sample_db_filled and ops = "[]" and r = None]
  note u = quantity_at_least_1000 [where self = sample_line_item and cached = None
      and db = sample_db and slugify = sample_slugify
      and vat = sample_VAT and ?db2.0 = sample_db_ordered and r = None
      and ops = "[AddLineItem sample_cart sample_product 1000,
                  MakeOrder [''R1''] sample_cart_filled]"]
  from t h1 h2 have a: "LineItem_save None (sample_line_item\<lparr>li_quantity := 3\<rparr>) sample_db_filled
      = LineItem_save None (sample_line_item\<lparr>li_quantity := 3, li_quantity := 1000\<rparr>)
          sample_db_filled"
    and a2: "li_quantity sample_line_item = 1000"
    and a3: "find (\<lambda>li. li_pk li = li_pk (sample_line_item\<lparr>li_quantity := 3\<rparr>))
               (line_items sample_db_filled) = Some sample_line_item"
    by blast+
  from u h3 sample_run
  have b: "\<forall>li \<in> set (line_items sample_db_ordered). 1000 \<le> li_quantity li"
    by blast
  have d: "line_items sample_db_ordered = [sample_line_item\<lparr>li_cart := None, li_order := Some 1\<rparr>]"
    by (simp add: sample_db_ordered_def)
  from b d have e: "1000 \<le> li_quantity (sample_line_item\<lparr>li_cart := None, li_order := Some 1\<rparr>)"
    by simp
  from a a2 a3 d e h1 h2 sample_run show ?thesis by (simp add: sample_db_def)
qed

subsection \<open>Attachment to exactly one of cart and order\<close>

text \<open>
  C6.  A run of the program's operations on carts, products and orders (\<open>add_line_item\<close>,
  \<open>update_line_item\<close>, \<open>remove_line_item\<close>, \<open>empty_cart\<close>, \<open>make_order\<close>, and the saves of
  products and orders) from a database in which every line item is attached to exactly
  one of a cart and an order ends in such a database, whether the run completes or stops
  at an exception; so it holds after every operation of the run.
\<close>

theorem line_items_attached_to_one:
  assumes "\<forall>li \<in> set (line_items db). attached_to_one li"
    and "\<forall>x \<in> set ops. cart_operation x"
    and "run slugify vat ops db = (r, db1)"
  shows "\<forall>li \<in> set (line_items db1). attached_to_one li"
  using assms(3,1)
proof (rule run_pred)
  show "attached_to_one (LineItem_saved p (li\<lparr>li_quantity := q\<rparr>))"
    if "attached_to_one li" for p li q
    using that by (simp add: attached_to_one_def)
  show "attached_to_one (LineItem_saved p (LineItem_new p c d))" for p c d
    by (simp add: attached_to_one_def LineItem_new_def)
  show "attached_to_one (LineItem_saved p (li\<lparr>li_order := Some k, li_cart := None\<rparr>))"
    for p li k
    by (simp add: attached_to_one_def)
  show "attached_to_one (LineItem_saved p li)" if "LineItemSave li \<in> set ops" for li p
    using that assms(2) by force
qed

theorem line_items_attached_to_one_witness:
  "line_items sample_db = [] \<and>
   cart_operation (AddLineItem sample_cart sample_product 1000) \<and>
   cart_operation (MakeOrder [''R1''] sample_cart_filled) \<and>
   run sample_slugify sample_VAT
     [AddLineItem sample_cart sample_product 1000, MakeOrder [''R1''] sample_cart_filled]
     sample_db = (None, sample_db_ordered) \<and>
   line_items sample_db_ordered = [sample_line_item\<lparr>li_cart := None, li_order := Some 1\<rparr>] \<and>
   attached_to_one (sample_line_item\<lparr>li_cart := None, li_order := Some 1\<rparr>)"
proof -
  have h1: "\<forall>li \<in> set (line_items sample_db). attached_to_one li"
    by (simp add: sample_db_def)
  have h2: "\<forall>x \<in> set [AddLineItem sample_cart sample_product 1000,
      MakeOrder [''R1''] sample_cart_filled]. cart_operation x"
    by simp
  from line_items_attached_to_one [OF h1 h2 sample_run]
  have "\<forall>li \<in> set (line_items sample_db_ordered). attached_to_one li" .
  moreover have "line_items sample_db_ordered
      = [sample_line_item\<lparr>li_cart := None, li_order := Some 1\<rparr>]"
    by (simp add: sample_db_ordered_def)
  ultimately show ?thesis using sample_run by (simp add: sample_db_def)
qed

subsection \<open>Reference numbers and order slugs\<close>

lemma unique_ref_number_generator_SomeD:
  "unique_ref_number_generator cands inst db = Some (r, rest) \<Longrightarrow>
     r \<in> set cands \<and> (\<forall>ord \<in> set (orders db). o_ref_number ord \<noteq> r) \<and>
     set rest \<subseteq> set cands"
proof (induction cands)
  case Nil
  then show ?case by simp
next
  case (Cons c cs)
  show ?case
  proof (cases "\<exists>ord \<in> set (orders db). o_ref_number ord = c")
    case True
    with Cons.prems have "unique_ref_number_generator cs inst db = Some (r, rest)" by simp
    from Cons.IH [OF this] show ?thesis by auto
  next
    case False
    with Cons.prems have "r = c" "rest = cs" by simp_all
    with False show ?thesis by auto
  qed
qed


lemma Order_gen_ref_number_InrD:
  assumes "Order_gen_ref_number cands self db = Inr (self1, rest)"
  shows "o_pk self1 = o_pk self \<and> o_slug self1 = o_slug self \<and> o_status self1 = o_status self \<and>
         o_customer_account self1 = o_customer_account self \<and> set rest \<subseteq> set cands \<and>
         (o_ref_number self \<noteq> [] \<longrightarrow> self1 = self \<and> rest = cands) \<and>
         (o_ref_number self = [] \<longrightarrow>
            o_ref_number self1 \<in> set cands \<and>
            (\<forall>ord \<in> set (orders db). o_ref_number ord \<noteq> o_ref_number self1))"
proof (cases "o_ref_number self = []")
  case False
  with assms show ?thesis by (simp add: Order_gen_ref_number_def)
next
  case True
  with assms obtain r where g: "unique_ref_number_generator cands self db = Some (r, rest)"
    and s: "self1 = self\<lparr>o_ref_number := r\<rparr>"
    by (auto simp: Order_gen_ref_number_def split: option.splits)
  from unique_ref_number_generator_SomeD [OF g] s True show ?thesis by simp
qed

lemma Order_filled_fields [simp]:
  "o_pk (Order_filled slugify vat self db) = o_pk self"
  "o_ref_number (Order_filled slugify vat self db) = o_ref_number self"
  "o_slug (Order_filled slugify vat self db)
     = (if o_slug self = [] then slugify (o_ref_number self) else o_slug self)"
  "o_status (Order_filled slugify vat self db) = o_status self"
  "o_customer_account (Order_filled slugify vat self db) = o_customer_account self"
  "o_total_price (Order_filled slugify vat self db)
     = sum_list (map li_price (filter (\<lambda>li. li_order li = o_pk self) (line_items db)))"
  by (simp_all add: Order_filled_def Order_calculate_total_price_def Let_def fold_price_sum
      split: prod.splits)

lemma map_filter_mem: "r \<in> set rows \<Longrightarrow> f r = Some k \<Longrightarrow> k \<in> set (List.map_filter f rows)"
  by (induction rows) (auto simp: List.map_filter_def)

lemma next_order_pk_fresh:
  "r \<in> set (orders db) \<Longrightarrow>
     o_pk r \<noteq> Some (next_pk (order_seq db) (List.map_filter o_pk (orders db)))"
  using next_pk_notin [of "order_seq db" "List.map_filter o_pk (orders db)"]
  by (auto dest: map_filter_mem)

lemma find_append_fresh:
  "\<forall>r \<in> set rows. \<not> P r \<Longrightarrow> P x \<Longrightarrow> find P (rows @ [x]) = Some x"
  by (induction rows) auto

lemma Order_Model_save_InrD:
  assumes "Order_Model_save self db = (Inr self1, db1)"
  shows "o_pk self = None \<Longrightarrow>
           self1 = self\<lparr>o_pk := Some (next_pk (order_seq db) (List.map_filter o_pk (orders db)))\<rparr>
           \<and> db1 = db\<lparr>orders := orders db @ [self1],
                      order_seq := next_pk (order_seq db) (List.map_filter o_pk (orders db))\<rparr>"
    and "o_pk self = Some k \<Longrightarrow>
           self1 = self \<and> db1 = db\<lparr>orders := Model_save o_pk self (orders db),
                                   order_seq := max (order_seq db) k\<rparr>"
    and "\<forall>r \<in> set (orders db). o_pk r \<noteq> o_pk self \<longrightarrow> o_slug r \<noteq> o_slug self"
    and "fits (o_total_price self)"
  using assms by (auto simp: Order_Model_save_def Let_def split: if_splits option.splits)

lemma Order_Model_save_row:
  assumes "Order_Model_save self db = (Inr self1, db1)"
  shows "find (\<lambda>r. o_pk r = o_pk self1) (orders db1) = Some self1"
    and "set (orders db1) \<subseteq> insert self1 (set (orders db))"
    and "o_ref_number self1 = o_ref_number self" and "o_slug self1 = o_slug self"
    and "o_total_price self1 = o_total_price self"
    and "o_customer_account self1 = o_customer_account self"
    and "\<And>k. o_pk self = Some k \<Longrightarrow> o_pk self1 = Some k"
proof -
  have all: "find (\<lambda>r. o_pk r = o_pk self1) (orders db1) = Some self1 \<and>
     set (orders db1) \<subseteq> insert self1 (set (orders db)) \<and>
     o_ref_number self1 = o_ref_number self \<and> o_slug self1 = o_slug self \<and>
     o_total_price self1 = o_total_price self \<and>
     o_customer_account self1 = o_customer_account self \<and>
     (\<forall>k. o_pk self = Some k \<longrightarrow> o_pk self1 = Some k)"
  proof (cases "o_pk self")
    case None
    let ?k = "next_pk (order_seq db) (List.map_filter o_pk (orders db))"
    from Order_Model_save_InrD(1) [OF assms None]
    have s: "self1 = self\<lparr>o_pk := Some ?k\<rparr>" and d: "orders db1 = orders db @ [self1]"
      by simp_all
    have "\<forall>r \<in> set (orders db). \<not> o_pk r = o_pk self1"
      using next_order_pk_fresh [of _ db] s by simp
    then have "find (\<lambda>r. o_pk r = o_pk self1) (orders db @ [self1]) = Some self1"
      by (rule find_append_fresh) simp
    with s d None show ?thesis by auto
  next
    case (Some k)
    from Order_Model_save_InrD(2) [OF assms Some]
    have s: "self1 = self" and d: "orders db1 = Model_save o_pk self (orders db)"
      by simp_all
    from s d Some find_Model_save [of o_pk self "orders db"]
      set_Model_save [of o_pk self "orders db"]
    show ?thesis by simp
  qed
  from all show "find (\<lambda>r. o_pk r = o_pk self1) (orders db1) = Some self1" by simp
  from all show "set (orders db1) \<subseteq> insert self1 (set (orders db))" by simp
  from all show "o_ref_number self1 = o_ref_number self" by simp
  from all show "o_slug self1 = o_slug self" by simp
  from all show "o_total_price self1 = o_total_price self" by simp
  from all show "o_customer_account self1 = o_customer_account self" by simp
  from all show "\<And>k. o_pk self = Some k \<Longrightarrow> o_pk self1 = Some k" by simp
qed

lemma Order_save_InrD:
  assumes "Order_save slugify vat cands self db = (Inr (self1, rest), db1)"
  shows "\<exists>s1. Order_gen_ref_number cands self db = Inr (s1, rest) \<and>
              Order_Model_save (Order_filled slugify vat s1 db) db = (Inr self1, db1)"
proof (cases "Order_gen_ref_number cands self db")
  case (Inl e)
  with assms show ?thesis by (simp add: Order_save_def)
next
  case (Inr v)
  obtain s1 rest1 where v: "v = (s1, rest1)" by (cases v)
  obtain r2 db2 where m: "Order_Model_save (Order_filled slugify vat s1 db) db = (r2, db2)"
    by (cases "Order_Model_save (Order_filled slugify vat s1 db) db")
  from assms Inr v m have "r2 = Inr self1 \<and> rest1 = rest \<and> db2 = db1"
    by (cases r2) (simp_all add: Order_save_def)
  with Inr v m show ?thesis by simp
qed



subsection \<open>Totals\<close>

text \<open>
  C4 fails for \<open>Order_save\<close> on an order that has no key yet, which is what
  \<^verbatim>\<open>Order.objects.create()\<close> runs.  The total is computed before the insert, by a query
  that then selects the line items attached to no order: those of all carts.  In the
  filled sample database the cart holds one line item priced 2500.00; the new order is
  persisted under key 1 with total 2500.00, while no line item is attached to it and the
  sum of the prices of its line items is 0.
\<close>

theorem Order_save_new_order_total:
  "Order_save sample_slugify sample_VAT [''R1''] Order_new sample_db_filled
     = (Inr (sample_order_made\<lparr>o_customer_account := None\<rparr>, []),
        sample_db_filled\<lparr>orders := [sample_order_made\<lparr>o_customer_account := None\<rparr>],
                          order_seq := 1\<rparr>) \<and>
   o_pk (sample_order_made\<lparr>o_customer_account := None\<rparr>) = Some 1 \<and>
   o_total_price (sample_order_made\<lparr>o_customer_account := None\<rparr>) = 250000 \<and>
   order_line_items 1
     (sample_db_filled\<lparr>orders := [sample_order_made\<lparr>o_customer_account := None\<rparr>],
                       order_seq := 1\<rparr>) = [] \<and>
   sum_list (map li_price (order_line_items 1
     (sample_db_filled\<lparr>orders := [sample_order_made\<lparr>o_customer_account := None\<rparr>],
                       order_seq := 1\<rparr>))) = 0 \<and>
   line_items sample_db_filled = [sample_line_item] \<and>
   li_order sample_line_item = None \<and> li_cart sample_line_item = Some 1 \<and>
   li_price sample_line_item = 250000"
  using sample_Order_objects_create
  by (simp add: Order_objects_create_def order_line_items_def sample_db_filled_def
      sample_line_item_def sample_order_made_def)

subsection \<open>Placing an order\<close>

lemma LineItem_moved_pk [simp]: "li_pk (LineItem_moved db k li) = li_pk li"
  by (simp add: LineItem_moved_def split: option.splits)




lemma distinct_pk_eq:
  "distinct (map pk rows) \<Longrightarrow> x \<in> set rows \<Longrightarrow> y \<in> set rows \<Longrightarrow> pk x = pk y \<Longrightarrow> x = y"
  by (simp add: distinct_map inj_on_def)










lemma Order_objects_create_fresh:
  assumes "Order_objects_create slugify vat cands db = (Inr (ord, rest), db0)"
  shows "\<exists>k. o_pk ord = Some k \<and> (\<forall>r \<in> set (orders db). o_pk r \<noteq> Some k)"
proof -
  from assms have "Order_save slugify vat cands Order_new db = (Inr (ord, rest), db0)"
    by (simp add: Order_objects_create_def)
  from Order_save_InrD [OF this] obtain s1 where
    g: "Order_gen_ref_number cands Order_new db = Inr (s1, rest)"
    and ms: "Order_Model_save (Order_filled slugify vat s1 db) db = (Inr ord, db0)"
    by blast
  from Order_gen_ref_number_InrD [OF g] have "o_pk s1 = None" by (simp add: Order_new_def)
  then have "o_pk (Order_filled slugify vat s1 db) = None" by simp
  from Order_Model_save_InrD(1) [OF ms this]
  have "o_pk ord = Some (next_pk (order_seq db) (List.map_filter o_pk (orders db)))" by simp
  with next_order_pk_fresh [of _ db] show ?thesis by auto
qed




subsection \<open>Orders once placed\<close>

lemma snapshot_frame:
  "line_items db' = line_items db \<Longrightarrow> orders db' = orders db \<Longrightarrow>
     snapshot k S db' = snapshot k S db"
  by (simp add: snapshot_def order_line_items_def)

lemma snapshot_mem:
  assumes "snapshot k S db"
  shows "(r \<in> set S) = (r \<in> set (line_items db) \<and> li_order r = Some k)"
proof -
  from assms have e: "order_line_items k db = S" by (simp add: snapshot_def)
  show ?thesis unfolding e [symmetric] order_line_items_def by simp
qed

lemma LineItem_save_snap:
  assumes s: "snapshot k S db"
    and sv: "LineItem_save cached li db = (r, db1)"
    and key: "li_pk li \<notin> li_pk ` set S" and ord: "li_order li \<noteq> Some k"
  shows "snapshot k S db1"
  using LineItem_save_cases [of cached li db]
proof (elim disjE exE conjE)
  fix e assume "LineItem_save cached li db = (Inl e, db)"
  with sv s show ?thesis by simp
next
  fix p
  let ?x = "LineItem_saved p li"
  assume "LineItem_save cached li db =
           (Inr ?x, db\<lparr>line_items := Model_save li_pk ?x (line_items db),
                      line_item_seq := max (line_item_seq db) (li_pk li)\<rparr>)"
  with sv have rows: "line_items db1 = Model_save li_pk ?x (line_items db)"
    and ords: "orders db1 = orders db"
    by auto
  have "\<forall>r \<in> set (line_items db). li_pk r = li_pk ?x \<longrightarrow> \<not> li_order r = Some k"
  proof (intro ballI impI notI)
    fix r assume "r \<in> set (line_items db)" "li_pk r = li_pk ?x" "li_order r = Some k"
    with snapshot_mem [OF s, of r] have "r \<in> set S" "li_pk r = li_pk li" by simp_all
    with key show False by (metis imageI)
  qed
  with ord have "filter (\<lambda>r. li_order r = Some k) (Model_save li_pk ?x (line_items db))
      = filter (\<lambda>r. li_order r = Some k) (line_items db)"
    by (intro filter_Model_save_other) simp_all
  then have a: "order_line_items k db1 = order_line_items k db"
    by (simp add: order_line_items_def rows)
  have b: "\<forall>r \<in> set (line_items db1). li_pk r \<in> li_pk ` set S \<longrightarrow> li_order r = Some k"
  proof (intro ballI impI)
    fix r assume r: "r \<in> set (line_items db1)" and m: "li_pk r \<in> li_pk ` set S"
    from r rows have "r = ?x \<or> r \<in> set (line_items db)" by (auto dest: Model_save_rows)
    with m key s show "li_order r = Some k" by (auto simp: snapshot_def)
  qed
  from s a b ords show ?thesis by (simp add: snapshot_def)
qed

lemma LineItem_delete_snap:
  assumes s: "snapshot k S db" and key: "li_pk li \<notin> li_pk ` set S"
  shows "snapshot k S (LineItem_delete li db)"
proof -
  have "\<forall>r \<in> set (line_items db). li_pk r = li_pk li \<longrightarrow> \<not> li_order r = Some k"
  proof (intro ballI impI notI)
    fix r assume "r \<in> set (line_items db)" "li_pk r = li_pk li" "li_order r = Some k"
    with snapshot_mem [OF s, of r] have "r \<in> set S" "li_pk r = li_pk li" by simp_all
    with key show False by (metis imageI)
  qed
  then have "filter (\<lambda>r. li_order r = Some k) (Model_delete li_pk (li_pk li) (line_items db))
      = filter (\<lambda>r. li_order r = Some k) (line_items db)"
    by (rule filter_Model_delete_other)
  then have a: "order_line_items k (LineItem_delete li db) = order_line_items k db"
    by (simp add: order_line_items_def LineItem_delete_def)
  have "set (line_items (LineItem_delete li db)) \<subseteq> set (line_items db)"
    by (rule line_items_LineItem_delete)
  with s a show ?thesis by (auto simp: snapshot_def LineItem_delete_def)
qed

lemma fold_LineItem_delete_snap:
  "snapshot k S db \<Longrightarrow> \<forall>li \<in> set lis. li_pk li \<notin> li_pk ` set S \<Longrightarrow>
     snapshot k S (fold LineItem_delete lis db)"
proof (induction lis arbitrary: db)
  case Nil
  then show ?case by simp
next
  case (Cons li lis)
  from Cons.prems have "snapshot k S (LineItem_delete li db)"
    by (intro LineItem_delete_snap) simp_all
  from Cons.IH [OF this] Cons.prems(2) show ?case by simp
qed

lemma cart_row_spared:
  assumes s: "snapshot k S db" and nc: "\<forall>li \<in> set S. li_cart li = None"
    and a: "a \<in> set (line_items db)" and c: "li_cart a = Some c"
  shows "li_pk a \<notin> li_pk ` set S" and "li_order a \<noteq> Some k"
proof -
  show o: "li_order a \<noteq> Some k"
  proof
    assume "li_order a = Some k"
    with a snapshot_mem [OF s, of a] have "a \<in> set S" by simp
    with nc c show False by auto
  qed
  show "li_pk a \<notin> li_pk ` set S"
  proof
    assume "li_pk a \<in> li_pk ` set S"
    with s a have "li_order a = Some k" by (simp add: snapshot_def)
    with o show False by simp
  qed
qed

lemma new_row_spared:
  assumes s: "snapshot k S db"
  shows "li_pk (LineItem_new product c db) \<notin> li_pk ` set S"
proof
  assume "li_pk (LineItem_new product c db) \<in> li_pk ` set S"
  then obtain x where "x \<in> set S" and e: "li_pk (LineItem_new product c db) = li_pk x" by auto
  with snapshot_mem [OF s, of x] have "x \<in> set (line_items db)" by simp
  then have "li_pk x \<in> set (map li_pk (line_items db))" by simp
  with e LineItem_new_fresh [of product c db] show False by simp
qed

lemma LineItem_get_or_create_snap:
  assumes s: "snapshot k S db" and nc: "\<forall>li \<in> set S. li_cart li = None"
    and g: "LineItem_get_or_create product c db = (r, db0)"
  shows "snapshot k S db0 \<and>
         (\<forall>li cached created. r = Inr (li, cached, created) \<longrightarrow>
            li_pk li \<notin> li_pk ` set S \<and> li_order li \<noteq> Some k)"
proof (cases "LineItem_filter product c db")
  case Nil
  let ?n = "LineItem_new product c db"
  obtain rs db2 where sv: "LineItem_save (Some product) ?n db = (rs, db2)"
    by (cases "LineItem_save (Some product) ?n db")
  have no: "li_order ?n \<noteq> Some k" by (simp add: LineItem_new_def)
  from LineItem_save_snap [OF s sv new_row_spared [OF s] no] have s2: "snapshot k S db2" .
  show ?thesis
  proof (cases rs)
    case (Inl e)
    with g Nil sv have "r = Inl e" "db0 = db2" by (simp_all add: LineItem_get_or_create_def)
    with s2 show ?thesis by simp
  next
    case (Inr li1)
    from LineItem_save_InrD [of "Some product" ?n db li1 db2] sv Inr
    obtain p where "li1 = LineItem_saved p ?n" by auto
    with new_row_spared [OF s, of product c] no
    have "li_pk li1 \<notin> li_pk ` set S \<and> li_order li1 \<noteq> Some k" by simp
    with g Nil sv Inr s2 show ?thesis by (auto simp: LineItem_get_or_create_def)
  qed
next
  case (Cons a as)
  show ?thesis
  proof (cases as)
    case Nil
    with Cons have f: "LineItem_filter product c db = [a]" by simp
    then have "a \<in> set (filter (\<lambda>li. li_product li = p_pk product \<and> li_cart li = Some (c_pk c))
        (line_items db))"
      by (simp add: LineItem_filter_def)
    then have "a \<in> set (line_items db)" "li_cart a = Some (c_pk c)" by simp_all
    from cart_row_spared [OF s nc this] LineItem_get_or_create_found [OF f] g s
    show ?thesis by auto
  next
    case (Cons b bs)
    with \<open>LineItem_filter product c db = a # as\<close> g s show ?thesis
      by (auto simp: LineItem_get_or_create_many)
  qed
qed

lemma Cart_save_snap:
  "Cart_save self db = (r, db1) \<Longrightarrow> snapshot k S db1 = snapshot k S db"
  by (rule snapshot_frame) (auto simp: Cart_save_def Let_def split: if_splits)

lemma save_then_Cart_save_snap:
  assumes a: "(case LineItem_save cached li db0 of
                 (Inl e, db2) \<Rightarrow> (Inl e, db2)
               | (Inr li1, db2) \<Rightarrow> Cart_save self db2) = (r, db1)"
    and s: "snapshot k S db0"
    and key: "li_pk li \<notin> li_pk ` set S" and ord: "li_order li \<noteq> Some k"
  shows "snapshot k S db1"
proof -
  obtain rs db2 where sv: "LineItem_save cached li db0 = (rs, db2)"
    by (cases "LineItem_save cached li db0")
  from LineItem_save_snap [OF s sv key ord] have s2: "snapshot k S db2" .
  show ?thesis
  proof (cases rs)
    case (Inl e)
    with a sv have "db1 = db2" by simp
    with s2 show ?thesis by simp
  next
    case (Inr li1)
    with a sv have "Cart_save self db2 = (r, db1)" by simp
    from Cart_save_snap [OF this] s2 show ?thesis by simp
  qed
qed

lemma add_line_item_snap:
  assumes a: "add_line_item self product quantity db = (r, db1)"
    and s: "snapshot k S db" and nc: "\<forall>li \<in> set S. li_cart li = None"
  shows "snapshot k S db1"
proof -
  obtain rg db0 where g: "LineItem_get_or_create product self db = (rg, db0)"
    by (cases "LineItem_get_or_create product self db")
  from LineItem_get_or_create_snap [OF s nc g]
  have s0: "snapshot k S db0"
    and sp: "\<And>li cached created. rg = Inr (li, cached, created) \<Longrightarrow>
               li_pk li \<notin> li_pk ` set S \<and> li_order li \<noteq> Some k"
    by auto
  show ?thesis
  proof (cases rg)
    case (Inl e)
    with a g have "db1 = db0" by (simp add: add_line_item_def)
    with s0 show ?thesis by simp
  next
    case (Inr v)
    obtain li cached created where v: "v = (li, cached, created)" by (cases v)
    from sp Inr v have key: "li_pk li \<notin> li_pk ` set S" and ord: "li_order li \<noteq> Some k"
      by simp_all
    show ?thesis
    proof (cases "created \<and> quantity < 1000")
      case True
      with a g Inr v have "db1 = LineItem_delete li db0" by (simp add: add_line_item_def)
      with LineItem_delete_snap [OF s0 key] show ?thesis by simp
    next
      case False
      let ?li = "if created then li\<lparr>li_quantity := quantity\<rparr>
                 else li\<lparr>li_quantity := li_quantity li + quantity\<rparr>"
      from False g Inr v a
      have c: "(case LineItem_save cached ?li db0 of
                 (Inl e, db2) \<Rightarrow> (Inl e, db2)
               | (Inr li1, db2) \<Rightarrow> Cart_save self db2) = (r, db1)"
        by (auto simp: add_line_item_def split: if_splits)
      from key ord have "li_pk ?li \<notin> li_pk ` set S" "li_order ?li \<noteq> Some k" by simp_all
      from save_then_Cart_save_snap [OF c s0 this] show ?thesis .
    qed
  qed
qed

lemma update_line_item_snap:
  assumes a: "update_line_item self product quantity db = (r, db1)"
    and s: "snapshot k S db" and nc: "\<forall>li \<in> set S. li_cart li = None"
  shows "snapshot k S db1"
proof (cases "quantity < 1000")
  case True
  with a s show ?thesis by (simp add: update_line_item_def)
next
  case False
  obtain rg db0 where g: "LineItem_get_or_create product self db = (rg, db0)"
    by (cases "LineItem_get_or_create product self db")
  from LineItem_get_or_create_snap [OF s nc g]
  have s0: "snapshot k S db0"
    and sp: "\<And>li cached created. rg = Inr (li, cached, created) \<Longrightarrow>
               li_pk li \<notin> li_pk ` set S \<and> li_order li \<noteq> Some k"
    by auto
  show ?thesis
  proof (cases rg)
    case (Inl e)
    with False a g have "db1 = db0" by (simp add: update_line_item_def)
    with s0 show ?thesis by simp
  next
    case (Inr v)
    obtain li cached created where v: "v = (li, cached, created)" by (cases v)
    from sp Inr v have key: "li_pk li \<notin> li_pk ` set S" and ord: "li_order li \<noteq> Some k"
      by simp_all
    let ?li = "li\<lparr>li_quantity := quantity\<rparr>"
    from False g Inr v a
    have c: "(case LineItem_save cached ?li db0 of
               (Inl e, db2) \<Rightarrow> (Inl e, db2)
             | (Inr li1, db2) \<Rightarrow> Cart_save self db2) = (r, db1)"
      by (simp add: update_line_item_def)
    from key ord have "li_pk ?li \<notin> li_pk ` set S" "li_order ?li \<noteq> Some k" by simp_all
    from save_then_Cart_save_snap [OF c s0 this] show ?thesis .
  qed
qed

lemma Model_save_keeps:
  "r \<in> set rows \<Longrightarrow> pk r \<noteq> pk x \<Longrightarrow> r \<in> set (Model_save pk x rows)"
  by (auto simp: Model_save_def)

lemma Order_Model_save_snap:
  assumes s: "snapshot k S db"
    and ms: "Order_Model_save self db = (r, db1)"
    and tot: "o_pk self = Some k \<Longrightarrow> o_total_price self = sum_list (map li_price S)"
  shows "snapshot k S db1"
proof (cases r)
  case (Inl e)
  with ms have "db1 = db"
    by (auto simp: Order_Model_save_def Let_def split: if_splits option.splits)
  with s show ?thesis by simp
next
  case (Inr self1)
  with ms have m: "Order_Model_save self db = (Inr self1, db1)" by simp
  from Order_Model_save_line_items [OF ms] have rows: "line_items db1 = line_items db" .
  from s obtain ord where ord: "ord \<in> set (orders db)" "o_pk ord = Some k"
    by (auto simp: snapshot_def)
  from s have old: "\<forall>x \<in> set (orders db). o_pk x = Some k \<longrightarrow>
      o_total_price x = sum_list (map li_price S)"
    by (simp add: snapshot_def)
  have ex: "\<exists>x \<in> set (orders db1). o_pk x = Some k"
  proof (cases "o_pk self")
    case None
    from Order_Model_save_InrD(1) [OF m None] ord show ?thesis by auto
  next
    case (Some j)
    from Order_Model_save_InrD(2) [OF m Some]
    have d: "orders db1 = Model_save o_pk self (orders db)" by simp
    show ?thesis
    proof (cases "j = k")
      case True
      with Some d Model_save_mem [of self o_pk "orders db"] show ?thesis by auto
    next
      case False
      with Some ord have "o_pk ord \<noteq> o_pk self" by simp
      from Model_save_keeps [OF ord(1) this] d ord(2) show ?thesis by auto
    qed
  qed
  have new: "o_pk self1 = Some k \<longrightarrow> o_total_price self1 = sum_list (map li_price S)"
  proof (cases "o_pk self")
    case None
    from Order_Model_save_InrD(1) [OF m None]
    have "o_pk self1 = Some (next_pk (order_seq db) (List.map_filter o_pk (orders db)))"
      by simp
    with next_order_pk_fresh [OF ord(1)] ord(2) show ?thesis by simp
  next
    case (Some j)
    from Order_Model_save_InrD(2) [OF m Some] have "self1 = self" by simp
    with tot show ?thesis by simp
  qed
  have tots: "\<forall>x \<in> set (orders db1). o_pk x = Some k \<longrightarrow>
      o_total_price x = sum_list (map li_price S)"
  proof (intro ballI impI)
    fix x assume x: "x \<in> set (orders db1)" and k: "o_pk x = Some k"
    from x Order_Model_save_row(2) [OF m] have "x = self1 \<or> x \<in> set (orders db)" by auto
    with k new old show "o_total_price x = sum_list (map li_price S)" by auto
  qed
  from s have a: "order_line_items k db = S"
    and b: "\<forall>r \<in> set (line_items db). li_pk r \<in> li_pk ` set S \<longrightarrow> li_order r = Some k"
    by (simp_all add: snapshot_def)
  from a rows have a1: "order_line_items k db1 = S" by (simp add: order_line_items_def)
  from a1 b rows ex tots show ?thesis by (simp add: snapshot_def)
qed

lemma Order_save_snap:
  assumes s: "snapshot k S db"
    and os: "Order_save slugify vat cands self db = (r, db1)"
  shows "snapshot k S db1"
proof (cases "Order_gen_ref_number cands self db")
  case (Inl e)
  with os s show ?thesis by (simp add: Order_save_def)
next
  case (Inr v)
  obtain self1 rest where v: "v = (self1, rest)" by (cases v)
  let ?f = "Order_filled slugify vat self1 db"
  obtain r2 db2 where m: "Order_Model_save ?f db = (r2, db2)"
    by (cases "Order_Model_save ?f db")
  from os Inr v m have d: "db1 = db2" by (cases r2) (simp_all add: Order_save_def)
  from s have a: "order_line_items k db = S" by (simp add: snapshot_def)
  have "o_total_price ?f = sum_list (map li_price S)" if "o_pk ?f = Some k"
  proof -
    from that have "o_pk self1 = Some k" by simp
    then have "o_total_price ?f = sum_list (map li_price (order_line_items k db))"
      by (simp add: order_line_items_def)
    with a show ?thesis by simp
  qed
  from Order_Model_save_snap [OF s m this] d show ?thesis by simp
qed

lemma Order_add_comment_snap:
  "Order_add_comment ord content db = (r, db1) \<Longrightarrow> snapshot k S db1 = snapshot k S db"
  by (rule snapshot_frame) (auto simp: Order_add_comment_def Let_def split: option.splits)

lemma Product_save_snap:
  "Product_save slugify p db = (r, db1) \<Longrightarrow> snapshot k S db1 = snapshot k S db"
  by (rule snapshot_frame) (auto simp: Product_save_def Let_def split: if_splits)

lemma make_order_loop_snap:
  assumes "make_order_loop ord lis db = (r, db1)"
    and "snapshot k S db"
    and "\<forall>li \<in> set lis. li_pk li \<notin> li_pk ` set S"
    and pk: "o_pk ord = Some j" and ne: "j \<noteq> k"
  shows "snapshot k S db1"
  using assms(1-3)
proof (induction lis arbitrary: db)
  case Nil
  then show ?case by simp
next
  case (Cons li lis)
  let ?li = "li\<lparr>li_order := Some j, li_cart := None\<rparr>"
  obtain rs db2 where sv: "LineItem_save None ?li db = (rs, db2)"
    by (cases "LineItem_save None ?li db")
  have "li_pk ?li \<notin> li_pk ` set S" "li_order ?li \<noteq> Some k"
    using Cons.prems(3) ne by simp_all
  from LineItem_save_snap [OF Cons.prems(2) sv this] have s2: "snapshot k S db2" .
  show ?case
  proof (cases rs)
    case (Inl e)
    with Cons.prems(1) sv pk have "db1 = db2" by simp
    with s2 show ?thesis by simp
  next
    case (Inr li1)
    with Cons.prems(1) sv pk have l: "make_order_loop ord lis db2 = (r, db1)" by simp
    from Cons.IH [OF l s2] Cons.prems(3) show ?thesis by simp
  qed
qed

lemma make_order_snap:
  assumes m: "make_order slugify vat cands self db = (r, db1)"
    and s: "snapshot k S db" and nc: "\<forall>li \<in> set S. li_cart li = None"
  shows "snapshot k S db1"
proof (cases "c_total_price self = 0")
  case True
  with m s show ?thesis by (simp add: make_order_def)
next
  case nz: False
  obtain ro db0 where cr: "Order_objects_create slugify vat cands db = (ro, db0)"
    by (cases "Order_objects_create slugify vat cands db")
  have s0: "snapshot k S db0"
    using s cr unfolding Order_objects_create_def by (rule Order_save_snap)
  show ?thesis
  proof (cases ro)
    case (Inl e)
    with m nz cr have "db1 = db0" by (simp add: make_order_def)
    with s0 show ?thesis by simp
  next
    case created: (Inr v)
    obtain ord rest where v: "v = (ord, rest)" by (cases v)
    from cr created v Order_objects_create_fresh [of slugify vat cands db ord rest db0]
    obtain j where j: "o_pk ord = Some j" and fresh: "\<forall>x \<in> set (orders db). o_pk x \<noteq> Some j"
      by auto
    from s fresh have ne: "j \<noteq> k" by (auto simp: snapshot_def)
    obtain rc dbc where ac: "Order_add_comment ord default_comment_content db0 = (rc, dbc)"
      by (cases "Order_add_comment ord default_comment_content db0")
    from Order_add_comment_snap [OF ac] s0 have sc: "snapshot k S dbc" by simp
    show ?thesis
    proof (cases rc)
      case (Inl e)
      with m nz cr created v ac have "db1 = dbc" by (simp add: make_order_def)
      with sc show ?thesis by simp
    next
      case commented: (Inr u)
      let ?o = "ord\<lparr>o_customer_account := c_customer_account self\<rparr>"
      obtain rl db3 where lp: "make_order_loop ?o (cart_line_items (c_pk self) dbc) dbc = (rl, db3)"
        by (cases "make_order_loop ?o (cart_line_items (c_pk self) dbc) dbc")
      have sp: "\<forall>li \<in> set (cart_line_items (c_pk self) dbc). li_pk li \<notin> li_pk ` set S"
      proof
        fix li assume "li \<in> set (cart_line_items (c_pk self) dbc)"
        then have "li \<in> set (line_items dbc)" "li_cart li = Some (c_pk self)"
          by (simp_all add: cart_line_items_def)
        from cart_row_spared(1) [OF sc nc this] show "li_pk li \<notin> li_pk ` set S" .
      qed
      have jo: "o_pk ?o = Some j" using j by simp
      from make_order_loop_snap [OF lp sc sp jo ne] have s3: "snapshot k S db3" .
      show ?thesis
      proof (cases rl)
        case (Inl e)
        with m nz cr created v ac commented lp have "db1 = db3"
          by (simp add: make_order_def Let_def)
        with s3 show ?thesis by simp
      next
        case moved: (Inr u1)
        obtain rs db4 where os: "Order_save slugify vat rest ?o db3 = (rs, db4)"
          by (cases "Order_save slugify vat rest ?o db3")
        from Order_save_snap [OF s3 os] have s4: "snapshot k S db4" .
        show ?thesis
        proof (cases rs)
          case (Inl e)
          with m nz cr created v ac commented lp moved os have "db1 = db4"
            by (simp add: make_order_def Let_def)
          with s4 show ?thesis by simp
        next
          case saved: (Inr w)
          obtain order2 rest2 where w: "w = (order2, rest2)" by (cases w)
          obtain rcs db5 where cs: "Cart_save self db4 = (rcs, db5)"
            by (cases "Cart_save self db4")
          from m nz cr created v ac commented lp moved os saved w cs have "db1 = db5"
            by (cases rcs) (simp_all add: make_order_def Let_def)
          with Cart_save_snap [OF cs] s4 show ?thesis by simp
        qed
      qed
    qed
  qed
qed

lemma step_snap:
  assumes st: "step slugify vat x db = (r, db1)"
    and s: "snapshot k S db" and nc: "\<forall>li \<in> set S. li_cart li = None"
    and sp: "spares k (map li_pk S) x"
  shows "snapshot k S db1"
proof (cases x)
  case (AddLineItem c p q)
  with st obtain v where "add_line_item c p q db = (v, db1)"
    by (auto dest: raised_result)
  from add_line_item_snap [OF this s nc] show ?thesis .
next
  case (UpdateLineItem c p q)
  with st obtain v where "update_line_item c p q db = (v, db1)"
    by (auto dest: raised_result)
  from update_line_item_snap [OF this s nc] show ?thesis .
next
  case (RemoveLineItem c li)
  with st obtain v where cs: "Cart_save c (LineItem_delete li db) = (v, db1)"
    by (auto simp: remove_line_item_def dest: raised_result)
  from sp RemoveLineItem have "li_pk li \<notin> li_pk ` set S" by simp
  from LineItem_delete_snap [OF s this] Cart_save_snap [OF cs] show ?thesis by simp
next
  case (EmptyCart c)
  with st obtain v where
    cs: "Cart_save c (fold LineItem_delete (cart_line_items (c_pk c) db) db) = (v, db1)"
    by (auto simp: empty_cart_def dest: raised_result)
  have "\<forall>li \<in> set (cart_line_items (c_pk c) db). li_pk li \<notin> li_pk ` set S"
  proof
    fix li assume "li \<in> set (cart_line_items (c_pk c) db)"
    then have "li \<in> set (line_items db)" "li_cart li = Some (c_pk c)"
      by (simp_all add: cart_line_items_def)
    from cart_row_spared(1) [OF s nc this] show "li_pk li \<notin> li_pk ` set S" .
  qed
  from fold_LineItem_delete_snap [OF s this] Cart_save_snap [OF cs] show ?thesis by simp
next
  case (MakeOrder cands c)
  with st obtain v where "make_order slugify vat cands c db = (v, db1)"
    by (auto dest: raised_result)
  from make_order_snap [OF this s nc] show ?thesis .
next
  case (ProductSave p)
  with st obtain v where "Product_save slugify p db = (v, db1)"
    by (auto dest: raised_result)
  from Product_save_snap [OF this] s show ?thesis by simp
next
  case (OrderSave cands ord)
  with st obtain v where "Order_save slugify vat cands ord db = (v, db1)"
    by (auto dest: raised_result)
  from Order_save_snap [OF s this] show ?thesis .
next
  case (LineItemSave li)
  with st obtain v where sv: "LineItem_save None li db = (v, db1)"
    by (auto dest: raised_result)
  from sp LineItemSave have "li_pk li \<notin> li_pk ` set S" "li_order li \<noteq> Some k" by simp_all
  from LineItem_save_snap [OF s sv this] show ?thesis .
qed

lemma run_snap:
  assumes "run slugify vat ops db = (r, db1)"
    and "snapshot k S db" and nc: "\<forall>li \<in> set S. li_cart li = None"
    and "\<forall>x \<in> set ops. spares k (map li_pk S) x"
  shows "snapshot k S db1"
  using assms(1,2,4)
proof (induction ops arbitrary: db)
  case Nil
  then show ?case by simp
next
  case (Cons x xs)
  obtain rs d where st: "step slugify vat x db = (rs, d)"
    by (cases "step slugify vat x db")
  from Cons.prems(3) have "spares k (map li_pk S) x" by simp
  from step_snap [OF st Cons.prems(2) nc this] have sd: "snapshot k S d" .
  show ?case
  proof (cases rs)
    case (Some e)
    with Cons.prems(1) st have "db1 = d" by simp
    with sd show ?thesis by simp
  next
    case None
    with Cons.prems(1) st have "run slugify vat xs d = (r, db1)" by simp
    from Cons.IH [OF this sd] Cons.prems(3) show ?thesis by simp
  qed
qed

lemma distinct_snapshot:
  assumes "distinct (map li_pk (line_items db))"
    and "ord \<in> set (orders db)" and "o_pk ord = Some k"
    and "\<forall>x \<in> set (orders db). o_pk x = Some k \<longrightarrow>
           o_total_price x = sum_list (map li_price (order_line_items k db))"
  shows "snapshot k (order_line_items k db) db"
proof -
  have "li_order r = Some k"
    if "r \<in> set (line_items db)" "li_pk r \<in> li_pk ` set (order_line_items k db)" for r
  proof -
    from that(2) obtain x where x: "x \<in> set (order_line_items k db)" and e: "li_pk r = li_pk x"
      by auto
    from x have xin: "x \<in> set (line_items db)" and xo: "li_order x = Some k"
      by (simp_all add: order_line_items_def)
    from distinct_pk_eq [OF assms(1) that(1) xin e] xo show ?thesis by simp
  qed
  with assms(2-4) show ?thesis unfolding snapshot_def by blast
qed

text \<open>
  C5, as the code has it.  Take a database whose line items have distinct keys, and an
  order in it whose line items are attached to no cart and whose persisted total is the
  sum of their prices (as \<open>make_order\<close> leaves it).  A run of operations that are not
  handed a line item of the order (\<open>remove_line_item\<close> is not called with one, no line
  item saved directly is one of them or attached to the order) leaves the order's line
  items as they are, with their quantities and prices, and the order's persisted total as
  it is, whether the run completes or stops at an exception.
\<close>

theorem order_is_snapshot:
  assumes "distinct (map li_pk (line_items db))"
    and "ord \<in> set (orders db)" and "o_pk ord = Some k"
    and "\<forall>x \<in> set (orders db). o_pk x = Some k \<longrightarrow>
           o_total_price x = sum_list (map li_price (order_line_items k db))"
    and "\<forall>li \<in> set (order_line_items k db). li_cart li = None"
    and "\<forall>x \<in> set ops. spares k (map li_pk (order_line_items k db)) x"
    and "run slugify vat ops db = (r, db1)"
  shows "order_line_items k db1 = order_line_items k db \<and>
         (\<exists>x \<in> set (orders db1). o_pk x = Some k) \<and>
         (\<forall>x \<in> set (orders db1). o_pk x = Some k \<longrightarrow> o_total_price x = o_total_price ord)"
proof -
  from distinct_snapshot [OF assms(1-4)]
  have "snapshot k (order_line_items k db) db" .
  from run_snap [OF assms(7) this assms(5,6)]
  have s: "snapshot k (order_line_items k db) db1" .
  from assms(2-4) have "o_total_price ord = sum_list (map li_price (order_line_items k db))"
    by simp
  with s show ?thesis unfolding snapshot_def by simp
qed

theorem order_is_snapshot_witness:
  "line_items sample_db_ordered = [sample_line_item\<lparr>li_cart := None, li_order := Some 1\<rparr>] \<and>
   orders sample_db_ordered = [sample_order_made] \<and>
   o_pk sample_order_made = Some 1 \<and> o_total_price sample_order_made = 250000 \<and>
   order_line_items 1 sample_db_ordered
     = [sample_line_item\<lparr>li_cart := None, li_order := Some 1\<rparr>] \<and>
   li_price (sample_line_item\<lparr>li_cart := None, li_order := Some 1\<rparr>) = 250000 \<and>
   spares 1 [1] (ProductSave (sample_product\<lparr>p_price := 300\<rparr>)) \<and>
   spares 1 [1] (AddLineItem sample_cart (sample_product\<lparr>p_price := 300\<rparr>) 2000) \<and>
   spares 1 [1] (OrderSave [] sample_order_made) \<and>
   run sample_slugify sample_VAT
     [ProductSave (sample_product\<lparr>p_price := 300\<rparr>),
      AddLineItem sample_cart (sample_product\<lparr>p_price := 300\<rparr>) 2000,
      OrderSave [] sample_order_made]
     sample_db_ordered
     = (None, sample_db_ordered\<lparr>products := [sample_product\<lparr>p_price := 300\<rparr>],
          carts := [sample_cart\<lparr>c_total_price := 600000\<rparr>],
          line_items := [sample_line_item\<lparr>li_cart := None, li_order := Some 1\<rparr>,
            \<lparr>li_pk = 2, li_product = 1, li_quantity = 2000, li_price = 600000,
             li_cart = Some 1, li_order = None\<rparr>],
          line_item_seq := 2\<rparr>) \<and>
   order_line_items 1 (sample_db_ordered\<lparr>products := [sample_product\<lparr>p_price := 300\<rparr>],
          carts := [sample_cart\<lparr>c_total_price := 600000\<rparr>],
          line_items := [sample_line_item\<lparr>li_cart := None, li_order := Some 1\<rparr>,
            \<lparr>li_pk = 2, li_product = 1, li_quantity = 2000, li_price = 600000,
             li_cart = Some 1, li_order = None\<rparr>],
          line_item_seq := 2\<rparr>)
     = [sample_line_item\<lparr>li_cart := None, li_order := Some 1\<rparr>]"
proof -
  let ?ops = "[ProductSave (sample_product\<lparr>p_price := 300\<rparr>),
      AddLineItem sample_cart (sample_product\<lparr>p_price := 300\<rparr>) 2000,
      OrderSave [] sample_order_made]"
  let ?db = "sample_db_ordered\<lparr>products := [sample_product\<lparr>p_price := 300\<rparr>],
          carts := [sample_cart\<lparr>c_total_price := 600000\<rparr>],
          line_items := [sample_line_item\<lparr>li_cart := None, li_order := Some 1\<rparr>,
            \<lparr>li_pk = 2, li_product = 1, li_quantity = 2000, li_price = 600000,
             li_cart = Some 1, li_order = None\<rparr>],
          line_item_seq := 2\<rparr>"
  have ol: "order_line_items 1 sample_db_ordered
     = [sample_line_item\<lparr>li_cart := None, li_order := Some 1\<rparr>]"
    by (simp add: order_line_items_def sample_db_ordered_def)
  have h1: "distinct (map li_pk (line_items sample_db_ordered))"
    by (simp add: sample_db_ordered_def)
  have h2: "sample_order_made \<in> set (orders sample_db_ordered)"
    by (simp add: sample_db_ordered_def)
  have h3: "o_pk sample_order_made = Some 1" by (simp add: sample_order_made_def)
  have h4: "\<forall>x \<in> set (orders sample_db_ordered). o_pk x = Some 1 \<longrightarrow>
      o_total_price x = sum_list (map li_price (order_line_items 1 sample_db_ordered))"
    unfolding ol by (simp add: sample_db_ordered_def sample_order_made_def sample_line_item_def)
  have h5: "\<forall>li \<in> set (order_line_items 1 sample_db_ordered). li_cart li = None"
    unfolding ol by simp
  have h6: "\<forall>x \<in> set ?ops. spares 1 (map li_pk (order_line_items 1 sample_db_ordered)) x"
    unfolding ol by simp
  have h7: "run sample_slugify sample_VAT ?ops sample_db_ordered = (None, ?db)"
    by (simp add: sample_defs method_defs sample_order_made_def sample_db_ordered_def)
  from order_is_snapshot [OF h1 h2 h3 h4 h5 h6 h7]
  have "order_line_items 1 ?db = order_line_items 1 sample_db_ordered" by simp
  with ol h7 show ?thesis
    by (simp add: sample_db_ordered_def sample_order_made_def sample_line_item_def)
qed

text \<open>
  The claim as stated fails for a line-item save.  In the sample database after the order
  has been placed, the product is saved with price 3.00 and the order's line item is
  saved again: its price is now 3000.00 instead of 2500.00, and a further save of the
  order persists the total 3000.00 instead of 2500.00.
\<close>

theorem order_is_snapshot_counterexample:
  "order_line_items 1 sample_db_ordered
     = [sample_line_item\<lparr>li_cart := None, li_order := Some 1\<rparr>] \<and>
   li_price (sample_line_item\<lparr>li_cart := None, li_order := Some 1\<rparr>) = 250000 \<and>
   find (\<lambda>r. o_pk r = Some 1) (orders sample_db_ordered) = Some sample_order_made \<and>
   o_total_price sample_order_made = 250000 \<and>
   run sample_slugify sample_VAT
     [ProductSave (sample_product\<lparr>p_price := 300\<rparr>),
      LineItemSave (sample_line_item\<lparr>li_cart := None, li_order := Some 1\<rparr>),
      OrderSave [] sample_order_made]
     sample_db_ordered
     = (None, sample_db_ordered\<lparr>products := [sample_product\<lparr>p_price := 300\<rparr>],
          orders := [sample_order_made\<lparr>o_total_price := 300000, o_vat_amount := 60000,
                                       o_incl_vat_price := 360000\<rparr>],
          line_items := [sample_line_item\<lparr>li_price := 300000, li_cart := None,
                                          li_order := Some 1\<rparr>]\<rparr>) \<and>
   order_line_items 1 (sample_db_ordered\<lparr>products := [sample_product\<lparr>p_price := 300\<rparr>],
          orders := [sample_order_made\<lparr>o_total_price := 300000, o_vat_amount := 60000,
                                       o_incl_vat_price := 360000\<rparr>],
          line_items := [sample_line_item\<lparr>li_price := 300000, li_cart := None,
                                          li_order := Some 1\<rparr>]\<rparr>)
     = [sample_line_item\<lparr>li_price := 300000, li_cart := None, li_order := Some 1\<rparr>] \<and>
   li_price (sample_line_item\<lparr>li_price := 300000, li_cart := None, li_order := Some 1\<rparr>)
     = 300000"
  by (simp add: sample_defs method_defs sample_order_made_def sample_db_ordered_def)

end
